theory Spec2Isabelle
  imports Complex_Main
begin

section \<open>The exchange session\<close>

text \<open>
  The tools of \<^verbatim>\<open>custom_tool.py\<close> talk to the exchange through one module-level
  session object. Here the session is explicit: a value of type \<open>exchange\<close> says how the
  exchange answers, and the list of calls made so far (the log) is the state that every
  tool receives and returns extended. An answer may depend on the whole history.

  A Python exception is represented by its message, the text of \<^verbatim>\<open>str(e)\<close>;
  a call that raises is the \<open>Inl\<close> alternative of its result.

  A Python float is a double. The finite doubles are rational numbers, and a quantity is
  represented by the rational number it is. Comparison and \<^verbatim>\<open>min\<close> of doubles are
  exact; subtraction rounds its result to a double (infinities and NaN are not
  represented).
\<close>

type_synonym exn = string

datatype qty = QStr string | QNum rat

text \<open>The keyword arguments of \<^verbatim>\<open>session.place_order\<close>; an argument that a tool
  does not pass is \<open>None\<close>.\<close>

record order_request =
  category :: string
  symbol :: string
  side :: string
  orderType :: string
  qty :: qty
  takeProfit :: "string option"
  stopLoss :: "string option"
  tpTriggerBy :: "string option"
  slTriggerBy :: "string option"
  tpslMode :: "string option"
  timeInForce :: "string option"

datatype call =
    Get_instruments_info string string
  | Place_order order_request

text \<open>
  One entry of \<^verbatim>\<open>instruments['result']['list']\<close>, with the fields the tools read.
  \<open>maxOrderQty\<close> and \<open>minOrderQty\<close> stand for
  \<^verbatim>\<open>float(lot_filter['maxOrderQty'])\<close> and \<^verbatim>\<open>float(lot_filter['minOrderQty'])\<close>:
  the number, or the message of the exception raised when the entry is missing or is not
  a number.
\<close>

record instrument =
  status :: string
  maxOrderQty :: "exn + rat"
  minOrderQty :: "exn + rat"

text \<open>
  The behaviour of the exchange. \<open>instruments_response\<close> is the instrument list of the
  answer to \<^verbatim>\<open>get_instruments_info(category, symbol)\<close>, \<open>order_response\<close> is the
  \<^verbatim>\<open>orderId\<close> of the answer to \<^verbatim>\<open>place_order\<close>; both may raise instead, and
  both see the calls made before. The tools read these parts of an answer right after the
  call and inside the same \<^verbatim>\<open>try\<close>, so an answer without them counts as a call
  that raised.
\<close>

record exchange =
  instruments_response :: "call list \<Rightarrow> string \<Rightarrow> string \<Rightarrow> exn + instrument list"
  order_response :: "call list \<Rightarrow> order_request \<Rightarrow> exn + string"

definition get_instruments_info ::
  "exchange \<Rightarrow> call list \<Rightarrow> string \<Rightarrow> string \<Rightarrow> (exn + instrument list) \<times> call list" where
  "get_instruments_info ex hist cat symb =
     (instruments_response ex hist cat symb, hist @ [Get_instruments_info cat symb])"

definition place_order ::
  "exchange \<Rightarrow> call list \<Rightarrow> order_request \<Rightarrow> (exn + string) \<times> call list" where
  "place_order ex hist req = (order_response ex hist req, hist @ [Place_order req])"

section \<open>Strings\<close>

text \<open>\<^verbatim>\<open>sep.join(xs)\<close>\<close>

fun join :: "string \<Rightarrow> string list \<Rightarrow> string" where
  "join sep [] = []"
| "join sep [x] = x"
| "join sep (x # y # ys) = x @ sep @ join sep (y # ys)"

definition newline :: string where
  "newline = [CHR 0x0A]"

text \<open>\<^verbatim>\<open>str(n)\<close> for a non-negative integer, as \<^verbatim>\<open>len(orders_executed)\<close> is.\<close>

definition digit_char :: "nat \<Rightarrow> char" where
  "digit_char d = char_of (48 + d)"

fun str_nat :: "nat \<Rightarrow> string" where
  "str_nat n = (if n < 10 then [digit_char n] else str_nat (n div 10) @ [digit_char (n mod 10)])"

declare str_nat.simps [simp del]

section \<open>execute\_multiple\_orders\<close>

text \<open>An order object of the batch tool: the three keys the tool reads.\<close>

record order =
  order_symbol :: string
  order_side :: string
  order_quantity :: string

definition batch_request :: "order \<Rightarrow> order_request" where
  "batch_request ord =
     \<lparr> category = ''linear'', symbol = order_symbol ord, side = order_side ord,
       orderType = ''Market'', qty = QStr (order_quantity ord),
       takeProfit = None, stopLoss = None, tpTriggerBy = None, slTriggerBy = None,
       tpslMode = None, timeInForce = None \<rparr>"

text \<open>The loop of \<^verbatim>\<open>execute_multiple_orders\<close>: \<open>results\<close> is the list built so far.\<close>

fun execute_orders_loop ::
  "exchange \<Rightarrow> order list \<Rightarrow> string list \<Rightarrow> call list \<Rightarrow> string list \<times> call list" where
  "execute_orders_loop ex [] results hist = (results, hist)"
| "execute_orders_loop ex (ord # orders) results hist =
     (case place_order ex hist (batch_request ord) of
        (Inr order_id, hist') \<Rightarrow>
          execute_orders_loop ex orders
            (results @ [''Success: '' @ order_symbol ord @ '' OrderID: '' @ order_id]) hist'
      | (Inl e, hist') \<Rightarrow>
          execute_orders_loop ex orders
            (results @ [''Failed: '' @ order_symbol ord @ '' Error: '' @ e]) hist')"

definition execute_multiple_orders ::
  "exchange \<Rightarrow> call list \<Rightarrow> order list \<Rightarrow> string \<times> call list" where
  "execute_multiple_orders ex hist orders =
     (case execute_orders_loop ex orders [] hist of
        (results, hist') \<Rightarrow> (join newline results, hist'))"

section \<open>place\_market\_order\<close>

definition market_request ::
  "string \<Rightarrow> string \<Rightarrow> string \<Rightarrow> qty \<Rightarrow> string \<Rightarrow> string \<Rightarrow> order_request" where
  "market_request cat symb sd q tp_price sl_price =
     \<lparr> category = cat, symbol = symb, side = sd, orderType = ''Market'', qty = q,
       takeProfit = Some tp_price, stopLoss = Some sl_price,
       tpTriggerBy = Some ''MarkPrice'', slTriggerBy = Some ''MarkPrice'',
       tpslMode = Some ''Full'', timeInForce = None \<rparr>"

definition place_market_order ::
  "exchange \<Rightarrow> call list \<Rightarrow> string \<Rightarrow> string \<Rightarrow> string \<Rightarrow> string \<Rightarrow> string \<Rightarrow> string
     \<Rightarrow> string \<times> call list" where
  "place_market_order ex hist symb sd q tp_price sl_price cat =
     (case get_instruments_info ex hist ''linear'' symb of
        (Inl e, hist1) \<Rightarrow> (''Trade failed: '' @ e, hist1)
      | (Inr instruments, hist1) \<Rightarrow>
          if instruments = [] then
            (''Error: '' @ [CHR 0x27] @ symb @ [CHR 0x27]
               @ '' is not a valid Bybit symbol for the linear category.'', hist1)
          else if status (hd instruments) \<noteq> ''Trading'' then
            (''Error: '' @ symb @ '' exists but is currently ''
               @ status (hd instruments) @ ''.'', hist1)
          else
            (case place_order ex hist1 (market_request cat symb sd (QStr q) tp_price sl_price) of
               (Inl e, hist2) \<Rightarrow> (''Trade failed: '' @ e, hist2)
             | (Inr order_id, hist2) \<Rightarrow>
                 (''Success! '' @ sd @ '' '' @ q @ '' '' @ symb @ ''. Order ID: '' @ order_id,
                  hist2)))"

section \<open>advanced\_sliced\_executor\<close>

definition slice_request ::
  "string \<Rightarrow> string \<Rightarrow> string \<Rightarrow> string \<Rightarrow> rat \<Rightarrow> order_request" where
  "slice_request symb sd tp_price sl_price q =
     (market_request ''linear'' symb sd (QNum q) tp_price sl_price)
       \<lparr> timeInForce := Some ''GTC'' \<rparr>"

text \<open>
  The \<^verbatim>\<open>while remaining_qty > 0\<close> loop. \<open>float_sub\<close> is the subtraction of
  Python floats in \<^verbatim>\<open>remaining_qty -= current_slice_qty\<close>, \<open>mk\<close> builds the request
  of a slice from its quantity, \<open>line\<close> formats the entry that a placed slice adds to
  \<^verbatim>\<open>orders_executed\<close>. A submission that raises leaves the loop with the exception;
  a loop that runs forever has the value \<open>None\<close>. (\<^verbatim>\<open>time.sleep\<close> and
  \<^verbatim>\<open>print\<close> change nothing the tools return and are left out.)
\<close>

partial_function (option) slicing_loop ::
  "(rat \<Rightarrow> rat \<Rightarrow> rat) \<Rightarrow> exchange \<Rightarrow> (rat \<Rightarrow> order_request) \<Rightarrow> (rat \<Rightarrow> string \<Rightarrow> string)
     \<Rightarrow> rat \<Rightarrow> rat \<Rightarrow> string list \<Rightarrow> call list
     \<Rightarrow> ((exn + string list) \<times> call list) option" where
  "slicing_loop float_sub ex mk line max_order_qty remaining_qty orders_executed hist =
     (if remaining_qty > 0 then
        (let current_slice_qty = min remaining_qty max_order_qty in
         case place_order ex hist (mk current_slice_qty) of
           (Inl e, hist') \<Rightarrow> Some (Inl e, hist')
         | (Inr order_id, hist') \<Rightarrow>
             slicing_loop float_sub ex mk line max_order_qty
               (float_sub remaining_qty current_slice_qty)
               (orders_executed @ [line current_slice_qty order_id]) hist')
      else Some (Inr orders_executed, hist))"

declare slicing_loop.simps [code]

text \<open>\<open>str_float\<close> is Python's \<^verbatim>\<open>str\<close> on floats, which the f-strings apply to the
  quantities.\<close>

definition slice_line :: "(rat \<Rightarrow> string) \<Rightarrow> rat \<Rightarrow> string \<Rightarrow> string" where
  "slice_line str_float q order_id = str_float q @ '' units (ID: '' @ order_id @ '')''"

text \<open>The string returned after the loop has run to its end.\<close>

definition success_report :: "(rat \<Rightarrow> string) \<Rightarrow> rat \<Rightarrow> string \<Rightarrow> string list \<Rightarrow> string" where
  "success_report str_float total_qty symb orders_executed =
     ''SUCCESS: Fully executed '' @ str_float total_qty @ '' '' @ symb
       @ '' in '' @ str_nat (length orders_executed) @ '' slices:''
       @ newline @ join newline orders_executed"

definition advanced_sliced_executor ::
  "(rat \<Rightarrow> rat \<Rightarrow> rat) \<Rightarrow> exchange \<Rightarrow> (rat \<Rightarrow> string) \<Rightarrow> call list \<Rightarrow> string \<Rightarrow> string
     \<Rightarrow> rat \<Rightarrow> string \<Rightarrow> string \<Rightarrow> (string \<times> call list) option" where
  "advanced_sliced_executor float_sub ex str_float hist symb sd total_qty tp_price sl_price =
     (case get_instruments_info ex hist ''linear'' symb of
        (Inl e, hist1) \<Rightarrow> Some (''CRITICAL FAILURE: '' @ e, hist1)
      | (Inr instruments, hist1) \<Rightarrow>
          if instruments = [] then Some (''Error: '' @ symb @ '' not found.'', hist1)
          else
            (case maxOrderQty (hd instruments) of
               Inl e \<Rightarrow> Some (''CRITICAL FAILURE: '' @ e, hist1)
             | Inr max_order_qty \<Rightarrow>
            (case minOrderQty (hd instruments) of
               Inl e \<Rightarrow> Some (''CRITICAL FAILURE: '' @ e, hist1)
             | Inr min_order_qty \<Rightarrow>
                 if total_qty < min_order_qty then
                   Some (''Failed: Quantity '' @ str_float total_qty
                           @ '' is below the minimum required ('' @ str_float min_order_qty
                           @ '').'', hist1)
                 else
                   (case slicing_loop float_sub ex (slice_request symb sd tp_price sl_price)
                           (slice_line str_float) max_order_qty total_qty [] hist1 of
                      None \<Rightarrow> None
                    | Some (Inl e, hist2) \<Rightarrow> Some (''CRITICAL FAILURE: '' @ e, hist2)
                    | Some (Inr orders_executed, hist2) \<Rightarrow>
                        Some (success_report str_float total_qty symb orders_executed,
                              hist2)))))"

section \<open>The slice sequence in closed form\<close>

text \<open>
  The specification's description of the decomposition, in its own words: the number of
  slices is \<open>ceil(total_quantity / maximum_order_quantity)\<close>; the maximum is repeated
  while the remaining quantity exceeds it, then comes the remainder. This definition is
  not taken from the code; the theorems below compare the loop with it.
\<close>

definition spec_slices :: "rat \<Rightarrow> rat \<Rightarrow> rat list" where
  "spec_slices total_qty mx =
     (let n = nat \<lceil>total_qty / mx\<rceil> in
      if n = 0 then [] else replicate (n - 1) mx @ [total_qty - of_nat (n - 1) * mx])"

text \<open>
  The arithmetic of the loop alone: the quantities of its first \<open>n\<close> slices when no
  submission raises (fewer when the remaining quantity stops being positive earlier).
\<close>

fun planned_slices :: "(rat \<Rightarrow> rat \<Rightarrow> rat) \<Rightarrow> nat \<Rightarrow> rat \<Rightarrow> rat \<Rightarrow> rat list" where
  "planned_slices float_sub 0 max_order_qty remaining_qty = []"
| "planned_slices float_sub (Suc n) max_order_qty remaining_qty =
     (if remaining_qty > 0 then
        min remaining_qty max_order_qty
          # planned_slices float_sub n max_order_qty
              (float_sub remaining_qty (min remaining_qty max_order_qty))
      else [])"

text \<open>
  The first \<open>n\<close> subtractions of the loop are exact: each gives the difference itself,
  without rounding.
\<close>

fun exact_run :: "(rat \<Rightarrow> rat \<Rightarrow> rat) \<Rightarrow> nat \<Rightarrow> rat \<Rightarrow> rat \<Rightarrow> bool" where
  "exact_run float_sub 0 max_order_qty remaining_qty = True"
| "exact_run float_sub (Suc n) max_order_qty remaining_qty =
     (if remaining_qty > 0 then
        float_sub remaining_qty (min remaining_qty max_order_qty)
          = remaining_qty - min remaining_qty max_order_qty
        \<and> exact_run float_sub n max_order_qty
              (remaining_qty - min remaining_qty max_order_qty)
      else True)"

text \<open>
  The body of the loop applied to a given list of slice quantities: each is submitted in
  turn, and the first submission that raises ends the run.
\<close>

fun run_slices ::
  "exchange \<Rightarrow> (rat \<Rightarrow> order_request) \<Rightarrow> (rat \<Rightarrow> string \<Rightarrow> string) \<Rightarrow> rat list
     \<Rightarrow> string list \<Rightarrow> call list \<Rightarrow> (exn + string list) \<times> call list" where
  "run_slices ex mk line [] acc hist = (Inr acc, hist)"
| "run_slices ex mk line (q # qs) acc hist =
     (case place_order ex hist (mk q) of
        (Inl e, hist') \<Rightarrow> (Inl e, hist')
      | (Inr order_id, hist') \<Rightarrow> run_slices ex mk line qs (acc @ [line q order_id]) hist')"

text \<open>The submissions recorded in a log, and the numeric quantities among them.\<close>

fun placed :: "call list \<Rightarrow> order_request list" where
  "placed [] = []"
| "placed (Place_order r # cs) = r # placed cs"
| "placed (Get_instruments_info cat symb # cs) = placed cs"

fun submitted_qtys :: "call list \<Rightarrow> rat list" where
  "submitted_qtys [] = []"
| "submitted_qtys (Place_order r # cs) =
     (case qty r of QNum q \<Rightarrow> q # submitted_qtys cs | QStr s \<Rightarrow> submitted_qtys cs)"
| "submitted_qtys (Get_instruments_info cat symb # cs) = submitted_qtys cs"

text \<open>An exchange on which no submission ever raises.\<close>

definition accepts_all :: "exchange \<Rightarrow> bool" where
  "accepts_all ex \<longleftrightarrow> (\<forall>h r. \<exists>order_id. order_response ex h r = Inr order_id)"

text \<open>
  Every submission recorded in \<open>calls\<close> was accepted, when the calls are made in this
  order after the history \<open>hist\<close>: none of them raised.
\<close>

fun all_accepted :: "exchange \<Rightarrow> call list \<Rightarrow> call list \<Rightarrow> bool" where
  "all_accepted ex hist [] = True"
| "all_accepted ex hist (Place_order r # cs) =
     (case order_response ex hist r of
        Inl e \<Rightarrow> False
      | Inr order_id \<Rightarrow> all_accepted ex (hist @ [Place_order r]) cs)"
| "all_accepted ex hist (Get_instruments_info cat symb # cs) =
     all_accepted ex (hist @ [Get_instruments_info cat symb]) cs"

section \<open>Double precision\<close>

text \<open>
  The subtraction of doubles, for running the loop on concrete quantities: the exact
  difference rounded to the nearest double, ties to the even significand (53 bits, the
  least exponent \<open>-1022\<close>; overflow is not represented). The theorems below that hold for
  every \<open>float_sub\<close> do not depend on it.
\<close>

function bit_length :: "int \<Rightarrow> int" where
  "bit_length p = (if p \<le> 0 then 0 else bit_length (p div 2) + 1)"
  by pat_completeness auto
termination
  by (relation "measure nat") auto

declare bit_length.simps [simp del]

definition pow2 :: "int \<Rightarrow> rat" where
  "pow2 e = (if 0 \<le> e then 2 ^ nat e else 1 / 2 ^ nat (- e))"

text \<open>For \<open>a > 0\<close>, the \<open>e\<close> with \<open>2 ^ e \<le> a < 2 ^ (e + 1)\<close>.\<close>

definition binary_exponent :: "rat \<Rightarrow> int" where
  "binary_exponent a =
     (let (p, q) = quotient_of a;
          d = bit_length p - bit_length q
      in if pow2 d \<le> a then d else d - 1)"

definition round_half_even :: "rat \<Rightarrow> int" where
  "round_half_even x =
     (let f = \<lfloor>x\<rfloor>; d = x - of_int f
      in if d < 1 / 2 then f else if 1 / 2 < d then f + 1 else if even f then f else f + 1)"

definition round_double :: "rat \<Rightarrow> rat" where
  "round_double x =
     (if x = 0 then 0
      else let ulp = pow2 (max (binary_exponent \<bar>x\<bar>) (- 1022) - 52)
           in of_int (round_half_even (x / ulp)) * ulp)"

definition double_sub :: "rat \<Rightarrow> rat \<Rightarrow> rat" where
  "double_sub a b = round_double (a - b)"

section \<open>Concrete exchanges\<close>

text \<open>
  Small exchanges on which the tools are run below. \<open>demo_exchange\<close> knows one symbol,
  with a maximum of 10 and a minimum of 1 per order, and accepts every order;
  \<open>flaky_exchange\<close> rejects the second submission it receives; on \<open>closed_exchange\<close>
  the instrument is not trading; \<open>unit_max_exchange\<close> has a maximum of 1.
  \<open>demo_str_float\<close> stands for Python's \<^verbatim>\<open>str\<close> on the quantities used here
  (non-negative, with at most one decimal digit).
\<close>

definition demo_instrument :: instrument where
  "demo_instrument = \<lparr> status = ''Trading'', maxOrderQty = Inr 10, minOrderQty = Inr 1 \<rparr>"

definition demo_order_id :: "call list \<Rightarrow> string" where
  "demo_order_id h = ''order-'' @ str_nat (length (placed h))"

definition demo_instruments :: "instrument \<Rightarrow> call list \<Rightarrow> string \<Rightarrow> string \<Rightarrow> exn + instrument list" where
  "demo_instruments inst h cat symb = (if symb = ''BTCUSDT'' then Inr [inst] else Inr [])"

definition demo_orders :: "call list \<Rightarrow> order_request \<Rightarrow> exn + string" where
  "demo_orders h r = Inr (demo_order_id h)"

definition flaky_orders :: "call list \<Rightarrow> order_request \<Rightarrow> exn + string" where
  "flaky_orders h r = (if length (placed h) = 1 then Inl ''rejected'' else Inr (demo_order_id h))"

definition demo_exchange :: exchange where
  "demo_exchange =
     \<lparr> instruments_response = demo_instruments demo_instrument, order_response = demo_orders \<rparr>"

definition flaky_exchange :: exchange where
  "flaky_exchange =
     \<lparr> instruments_response = demo_instruments demo_instrument, order_response = flaky_orders \<rparr>"

definition closed_instrument :: instrument where
  "closed_instrument = \<lparr> status = ''Closed'', maxOrderQty = Inr 10, minOrderQty = Inr 1 \<rparr>"

definition closed_exchange :: exchange where
  "closed_exchange =
     \<lparr> instruments_response = demo_instruments closed_instrument,
       order_response = demo_orders \<rparr>"

definition unit_max_instrument :: instrument where
  "unit_max_instrument = \<lparr> status = ''Trading'', maxOrderQty = Inr 1, minOrderQty = Inr 1 \<rparr>"

definition unit_max_exchange :: exchange where
  "unit_max_exchange =
     \<lparr> instruments_response = demo_instruments unit_max_instrument,
       order_response = demo_orders \<rparr>"

text \<open>The double nearest to \<open>0.1\<close>, and an instrument with that maximum.\<close>

definition double_tenth :: rat where
  "double_tenth = 3602879701896397 / 36028797018963968"

definition tenth_max_instrument :: instrument where
  "tenth_max_instrument =
     \<lparr> status = ''Trading'', maxOrderQty = Inr double_tenth, minOrderQty = Inr double_tenth \<rparr>"

definition tenth_max_exchange :: exchange where
  "tenth_max_exchange =
     \<lparr> instruments_response = demo_instruments tenth_max_instrument,
       order_response = demo_orders \<rparr>"

text \<open>Three order objects for the batch tool.\<close>

definition demo_orders_batch :: "order list" where
  "demo_orders_batch =
     [\<lparr> order_symbol = ''BTCUSDT'', order_side = ''Buy'', order_quantity = ''1'' \<rparr>,
      \<lparr> order_symbol = ''ETHUSDT'', order_side = ''Sell'', order_quantity = ''2'' \<rparr>,
      \<lparr> order_symbol = ''NOSUCH'', order_side = ''Buy'', order_quantity = ''3'' \<rparr>]"

definition demo_str_float :: "rat \<Rightarrow> string" where
  "demo_str_float q =
     str_nat (nat \<lfloor>q\<rfloor>) @ ''.'' @ str_nat (nat \<lfloor>10 * (q - of_int \<lfloor>q\<rfloor>)\<rfloor>)"

section \<open>The closed form\<close>

lemma spec_slices_nonpos: "0 < mx \<Longrightarrow> r \<le> 0 \<Longrightarrow> spec_slices r mx = []"
proof -
  assume "0 < mx" "r \<le> 0"
  then have "r / mx \<le> 0" by (simp add: divide_nonpos_pos)
  then have "\<lceil>r / mx\<rceil> \<le> 0" by (simp add: ceiling_le_zero)
  then show ?thesis by (simp add: spec_slices_def)
qed

lemma ceiling_small: "0 < (mx::rat) \<Longrightarrow> 0 < (r::rat) \<Longrightarrow> r \<le> mx \<Longrightarrow> \<lceil>r / mx\<rceil> = 1"
proof -
  assume a: "0 < mx" "0 < r" "r \<le> mx"
  then have "0 < r / mx" "r / mx \<le> 1" by simp_all
  then show ?thesis by (simp add: ceiling_eq_iff)
qed

lemma ceiling_big: "0 < (mx::rat) \<Longrightarrow> mx < (r::rat) \<Longrightarrow> \<lceil>r / mx\<rceil> = \<lceil>(r - mx) / mx\<rceil> + 1 \<and> 0 < \<lceil>(r - mx) / mx\<rceil>"
proof -
  assume a: "0 < mx" "mx < r"
  have "(r - mx) / mx = r / mx - 1" using a by (simp add: diff_divide_distrib)
  moreover have "0 < (r - mx) / mx" using a by simp
  ultimately show ?thesis by (simp add: ceiling_diff_one)
qed

lemma spec_slices_step:
  assumes "0 < mx" "0 < r"
  shows "spec_slices r mx = min r mx # spec_slices (r - min r mx) mx"
proof (cases "r \<le> mx")
  case True
  then have "spec_slices r mx = [r]" using assms by (simp add: spec_slices_def ceiling_small)
  moreover have "spec_slices (r - min r mx) mx = []" using True assms by (simp add: spec_slices_nonpos)
  ultimately show ?thesis using True by simp
next
  case False
  then have big: "mx < r" by simp
  define m where "m = nat \<lceil>(r - mx) / mx\<rceil>"
  from ceiling_big[OF assms(1) big]
  have c: "\<lceil>r / mx\<rceil> = \<lceil>(r - mx) / mx\<rceil> + 1" and p: "0 < \<lceil>(r - mx) / mx\<rceil>"
    by blast+
  have n: "nat \<lceil>r / mx\<rceil> = Suc m" unfolding m_def c using p by linarith
  have m: "0 < m" unfolding m_def using p by linarith
  then obtain m' where m': "m = Suc m'" by (cases m) auto
  have "spec_slices r mx = replicate m mx @ [r - of_nat m * mx]"
    by (simp add: spec_slices_def n)
  moreover have "spec_slices (r - mx) mx = replicate m' mx @ [r - mx - of_nat m' * mx]"
    using m' by (simp add: spec_slices_def m_def[symmetric])
  ultimately show ?thesis using big m' by (simp add: algebra_simps)
qed

lemma length_spec_slices: "length (spec_slices r mx) = nat \<lceil>r / mx\<rceil>"
  by (simp add: spec_slices_def Let_def)

lemma last_slice_bounds:
  assumes "0 < (mx::rat)" "0 < (r::rat)"
  shows "0 < r - of_nat (nat \<lceil>r / mx\<rceil> - 1) * mx"
    and "r - of_nat (nat \<lceil>r / mx\<rceil> - 1) * mx \<le> mx"
proof -
  have "0 < r / mx" using assms by simp
  then have c: "0 < \<lceil>r / mx\<rceil>" by simp
  define k where "k = nat \<lceil>r / mx\<rceil> - 1"
  have ck: "\<lceil>r / mx\<rceil> = int k + 1" unfolding k_def using c by linarith
  have e: "(of_nat (nat \<lceil>r / mx\<rceil> - 1) :: rat) = of_int \<lceil>r / mx\<rceil> - 1"
    unfolding k_def[symmetric] ck by simp
  have "of_int \<lceil>r / mx\<rceil> - 1 < r / mx" by linarith
  then have "(of_int \<lceil>r / mx\<rceil> - 1) * mx < r" using assms(1) by (simp add: pos_less_divide_eq)
  then show "0 < r - of_nat (nat \<lceil>r / mx\<rceil> - 1) * mx" unfolding e by simp
  have "r / mx \<le> of_int \<lceil>r / mx\<rceil>" by (rule le_of_int_ceiling)
  then have "r \<le> of_int \<lceil>r / mx\<rceil> * mx" using assms(1) by (simp only: pos_divide_le_eq)
  then show "r - of_nat (nat \<lceil>r / mx\<rceil> - 1) * mx \<le> mx" unfolding e by (simp add: algebra_simps)
qed

lemma spec_slices_bounds:
  assumes "0 < mx" "q \<in> set (spec_slices r mx)"
  shows "0 < q \<and> q \<le> mx"
proof (cases "0 < r")
  case True
  from last_slice_bounds[OF assms(1) True] assms show ?thesis
    by (auto simp: spec_slices_def Let_def split: if_splits)
next
  case False
  then have "spec_slices r mx = []" using assms(1) by (simp add: spec_slices_nonpos)
  with assms(2) show ?thesis by simp
qed

lemma sum_spec_slices:
  assumes "0 < mx" "0 \<le> r"
  shows "sum_list (spec_slices r mx) = r"
proof (cases "r = 0")
  case True
  then show ?thesis using assms by (simp add: spec_slices_nonpos)
next
  case False
  then have "0 < r / mx" using assms by simp
  then have "0 < \<lceil>r / mx\<rceil>" by simp
  then show ?thesis by (simp add: spec_slices_def Let_def sum_list_replicate)
qed

lemma sum_take_le:
  assumes "\<forall>q \<in> set qs. (0::rat) < q"
  shows "sum_list (take k qs) \<le> sum_list qs"
proof -
  have "sum_list qs = sum_list (take k qs) + sum_list (drop k qs)"
    by (metis append_take_drop_id sum_list_append)
  moreover have "0 \<le> sum_list (drop k qs)"
    using assms by (intro sum_list_nonneg) (auto dest: in_set_dropD less_imp_le)
  ultimately show ?thesis by simp
qed

lemma run_slices_calls:
  "\<exists>k \<le> length qs. snd (run_slices ex mk line qs acc hist)
       = hist @ map (\<lambda>q. Place_order (mk q)) (take k qs)"
proof (induction qs arbitrary: acc hist)
  case Nil
  then show ?case by simp
next
  case (Cons q qs)
  show ?case
  proof (cases "order_response ex hist (mk q)")
    case (Inl e)
    then have "snd (run_slices ex mk line (q # qs) acc hist)
        = hist @ map (\<lambda>q. Place_order (mk q)) (take 1 (q # qs))"
      by (simp add: place_order_def)
    then show ?thesis by (intro exI[of _ 1]) simp
  next
    case (Inr oid)
    from Cons.IH[of "acc @ [line q oid]" "hist @ [Place_order (mk q)]"]
    obtain k where k: "k \<le> length qs"
      "snd (run_slices ex mk line qs (acc @ [line q oid]) (hist @ [Place_order (mk q)]))
         = (hist @ [Place_order (mk q)]) @ map (\<lambda>q. Place_order (mk q)) (take k qs)"
      by blast
    then have "snd (run_slices ex mk line (q # qs) acc hist)
        = hist @ map (\<lambda>q. Place_order (mk q)) (take (Suc k) (q # qs))"
      using Inr by (simp add: place_order_def)
    with k(1) show ?thesis by (intro exI[of _ "Suc k"]) simp
  qed
qed

lemma run_slices_all_accepted:
  assumes "snd (run_slices ex mk line qs acc hist) = hist @ calls"
    and "all_accepted ex hist calls"
  shows "calls = map (\<lambda>q. Place_order (mk q)) qs \<and>
         (\<exists>lines. fst (run_slices ex mk line qs acc hist) = Inr (acc @ lines) \<and>
            length lines = length qs)"
  using assms
proof (induction qs arbitrary: acc hist calls)
  case Nil
  then show ?case by simp
next
  case (Cons q qs)
  show ?case
  proof (cases "order_response ex hist (mk q)")
    case (Inl e)
    with Cons.prems(1) have "calls = [Place_order (mk q)]" by (simp add: place_order_def)
    with Cons.prems(2) Inl show ?thesis by simp
  next
    case (Inr oid)
    let ?h = "hist @ [Place_order (mk q)]"
    let ?a = "acc @ [line q oid]"
    have run: "run_slices ex mk line (q # qs) acc hist = run_slices ex mk line qs ?a ?h"
      using Inr by (simp add: place_order_def)
    from run_slices_calls[of qs ex mk line ?a ?h]
    obtain k where k: "snd (run_slices ex mk line qs ?a ?h)
        = ?h @ map (\<lambda>q. Place_order (mk q)) (take k qs)"
      by blast
    let ?cs = "map (\<lambda>q. Place_order (mk q)) (take k qs)"
    from Cons.prems(1) run k have calls: "calls = Place_order (mk q) # ?cs" by simp
    with Cons.prems(2) Inr have acc': "all_accepted ex ?h ?cs" by simp
    from Cons.IH[OF k acc']
    obtain lines where l: "?cs = map (\<lambda>q. Place_order (mk q)) qs"
      "fst (run_slices ex mk line qs ?a ?h) = Inr (?a @ lines)" "length lines = length qs"
      by blast
    have "fst (run_slices ex mk line (q # qs) acc hist) = Inr (acc @ (line q oid # lines))
        \<and> length (line q oid # lines) = length (q # qs)"
      unfolding run using l by simp
    moreover have "calls = map (\<lambda>q. Place_order (mk q)) (q # qs)"
      using calls l(1) by simp
    ultimately show ?thesis by blast
  qed
qed

lemma take_all_of_map_eq:
  assumes "map f (take k qs) = map f qs"
  shows "take k qs = qs"
proof -
  from assms have "length (map f (take k qs)) = length (map f qs)" by simp
  then have "length qs \<le> k" by simp
  then show ?thesis by simp
qed

lemma accepts_all_all_accepted: "accepts_all ex \<Longrightarrow> all_accepted ex hist calls"
proof (induction ex hist calls rule: all_accepted.induct)
  case (2 ex hist r cs)
  from 2(2) obtain oid where "order_response ex hist r = Inr oid"
    unfolding accepts_all_def by blast
  with 2 show ?case by simp
qed simp_all

lemma submitted_qtys_slices:
  "submitted_qtys (map (\<lambda>q. Place_order (slice_request symb sd tp sl q)) qs) = qs"
  by (induction qs) (simp_all add: slice_request_def market_request_def)

lemma submitted_qtys_lookup_slices:
  "submitted_qtys (Get_instruments_info cat symb
      # map (\<lambda>q. Place_order (slice_request symb sd tp sl q)) qs) = qs"
  by (simp add: submitted_qtys_slices)

section \<open>The loop\<close>

lemma slicing_loop_exact:
  assumes "0 < mx" and "exact_run float_sub (nat \<lceil>r / mx\<rceil>) mx r"
  shows "slicing_loop float_sub ex mk line mx r acc hist
           = Some (run_slices ex mk line (spec_slices r mx) acc hist)"
  using assms(2)
proof (induction "nat \<lceil>r / mx\<rceil>" arbitrary: r acc hist)
  case 0
  have "r \<le> 0"
  proof (rule ccontr)
    assume "\<not> r \<le> 0"
    then have "0 < r / mx" using assms(1) by simp
    then have "0 < \<lceil>r / mx\<rceil>" by simp
    with 0 show False by simp
  qed
  then show ?case using assms(1)
    by (subst slicing_loop.simps) (simp add: spec_slices_nonpos)
next
  case (Suc n)
  have pos: "0 < r"
  proof (rule ccontr)
    assume "\<not> 0 < r"
    then have "r / mx \<le> 0" using assms(1) by (simp add: divide_nonpos_pos)
    then have "\<lceil>r / mx\<rceil> \<le> 0" by (simp add: ceiling_le_zero)
    with Suc(2) show False by simp
  qed
  have dec: "n = nat \<lceil>(r - min r mx) / mx\<rceil>"
  proof (cases "r \<le> mx")
    case True
    then show ?thesis using Suc(2) assms(1) pos by (simp add: ceiling_small)
  next
    case False
    then have "mx < r" by simp
    from ceiling_big[OF assms(1) this]
    have c: "\<lceil>r / mx\<rceil> = \<lceil>(r - mx) / mx\<rceil> + 1" and p: "0 < \<lceil>(r - mx) / mx\<rceil>"
      by blast+
    have "min r mx = mx" using False by simp
    then show ?thesis using Suc(2) unfolding c using p by simp
  qed
  from Suc(3) Suc(2)[symmetric] pos
  have sub: "float_sub r (min r mx) = r - min r mx"
    and rest: "exact_run float_sub n mx (r - min r mx)"
    by simp_all
  from rest dec have rest': "exact_run float_sub (nat \<lceil>(r - min r mx) / mx\<rceil>) mx (r - min r mx)"
    by simp
  show ?case
    apply (subst slicing_loop.simps)
    apply (subst spec_slices_step[OF assms(1) pos])
    using pos
    apply (simp add: Let_def sub split: prod.splits sum.splits)
    using Suc(1)[OF dec rest'] apply simp
    done
qed

lemma slicing_loop_planned:
  assumes "(\<exists>e. fst (run_slices ex mk line (planned_slices float_sub n mx r) acc hist) = Inl e)
           \<or> length (planned_slices float_sub n mx r) < n"
  shows "slicing_loop float_sub ex mk line mx r acc hist
           = Some (run_slices ex mk line (planned_slices float_sub n mx r) acc hist)"
  using assms
proof (induction n arbitrary: r acc hist)
  case 0
  then show ?case by simp
next
  case (Suc n)
  show ?case
  proof (cases "0 < r")
    case False
    then show ?thesis by (subst slicing_loop.simps) simp
  next
    case True
    let ?q = "min r mx"
    show ?thesis
    proof (cases "order_response ex hist (mk ?q)")
      case (Inl e)
      with True show ?thesis
        by (subst slicing_loop.simps) (simp add: Let_def place_order_def)
    next
      case (Inr oid)
      let ?h = "hist @ [Place_order (mk ?q)]"
      let ?a = "acc @ [line ?q oid]"
      from Suc.prems True Inr
      have "(\<exists>e. fst (run_slices ex mk line (planned_slices float_sub n mx (float_sub r ?q)) ?a ?h)
               = Inl e)
            \<or> length (planned_slices float_sub n mx (float_sub r ?q)) < n"
        by (simp add: place_order_def)
      from Suc.IH[OF this] True Inr show ?thesis
        by (subst slicing_loop.simps) (simp add: Let_def place_order_def)
    qed
  qed
qed

lemma slicing_loop_returns_planned:
  assumes "slicing_loop float_sub ex mk line mx r acc hist = Some y"
  shows "\<exists>n. y = run_slices ex mk line (planned_slices float_sub n mx r) acc hist"
proof -
  let ?P = "\<lambda>(float_sub :: rat \<Rightarrow> rat \<Rightarrow> rat) (ex :: exchange) (mk :: rat \<Rightarrow> order_request)
       (line :: rat \<Rightarrow> string \<Rightarrow> string) (mx :: rat) (r :: rat) (acc :: string list)
       (hist :: call list) (y :: (exn + string list) \<times> call list).
       \<exists>n. y = run_slices ex mk line (planned_slices float_sub n mx r) acc hist"
  show ?thesis
  proof (rule slicing_loop.raw_induct[where P = ?P, OF _ assms])
    fix loop :: "(rat \<Rightarrow> rat \<Rightarrow> rat) \<Rightarrow> exchange \<Rightarrow> (rat \<Rightarrow> order_request)
        \<Rightarrow> (rat \<Rightarrow> string \<Rightarrow> string) \<Rightarrow> rat \<Rightarrow> rat \<Rightarrow> string list \<Rightarrow> call list
        \<Rightarrow> ((exn + string list) \<times> call list) option"
      and float_sub :: "rat \<Rightarrow> rat \<Rightarrow> rat" and ex mk line and mx r :: rat and acc hist
      and y :: "(exn + string list) \<times> call list"
    assume ih: "\<And>float_sub ex mk line mx r acc hist y.
        loop float_sub ex mk line mx r acc hist = Some y \<Longrightarrow>
        \<exists>n. y = run_slices ex mk line (planned_slices float_sub n mx r) acc hist"
      and body: "(if 0 < r
          then let current_slice_qty = min r mx
               in case place_order ex hist (mk current_slice_qty) of
                  (Inl e, hist') \<Rightarrow> Some (Inl e, hist')
                | (Inr order_id, hist') \<Rightarrow>
                    loop float_sub ex mk line mx (float_sub r current_slice_qty)
                      (acc @ [line current_slice_qty order_id]) hist'
          else Some (Inr acc, hist)) = Some y"
    show "\<exists>n. y = run_slices ex mk line (planned_slices float_sub n mx r) acc hist"
    proof (cases "0 < r")
      case False
      with body have "y = run_slices ex mk line (planned_slices float_sub 0 mx r) acc hist"
        by simp
      then show ?thesis by blast
    next
      case True
      let ?q = "min r mx"
      show ?thesis
      proof (cases "order_response ex hist (mk ?q)")
        case (Inl e)
        with body True
        have "y = run_slices ex mk line (planned_slices float_sub (Suc 0) mx r) acc hist"
          by (simp add: Let_def place_order_def)
        then show ?thesis by blast
      next
        case (Inr oid)
        with body True
        have "loop float_sub ex mk line mx (float_sub r ?q) (acc @ [line ?q oid])
                (hist @ [Place_order (mk ?q)]) = Some y"
          by (simp add: Let_def place_order_def)
        from ih[OF this] obtain n where
          "y = run_slices ex mk line (planned_slices float_sub n mx (float_sub r ?q))
                 (acc @ [line ?q oid]) (hist @ [Place_order (mk ?q)])"
          by blast
        with True Inr
        have "y = run_slices ex mk line (planned_slices float_sub (Suc n) mx r) acc hist"
          by (simp add: place_order_def)
        then show ?thesis by blast
      qed
    qed
  qed
qed

lemma planned_slices_bounds:
  assumes "0 < mx" and "q \<in> set (planned_slices float_sub n mx r)"
  shows "0 < q \<and> q \<le> mx"
  using assms(2)
proof (induction n arbitrary: r)
  case 0
  then show ?case by simp
next
  case (Suc n)
  then show ?case using assms(1) by (auto split: if_splits)
qed

lemma run_slices_raise:
  assumes "qs \<noteq> []"
    and "all_accepted ex hist (map (\<lambda>q. Place_order (mk q)) (butlast qs))"
    and "order_response ex (hist @ map (\<lambda>q. Place_order (mk q)) (butlast qs)) (mk (last qs))
           = Inl e"
  shows "run_slices ex mk line qs acc hist = (Inl e, hist @ map (\<lambda>q. Place_order (mk q)) qs)"
  using assms
proof (induction qs arbitrary: acc hist)
  case Nil
  then show ?case by simp
next
  case (Cons q qs)
  show ?case
  proof (cases "qs = []")
    case True
    with Cons.prems show ?thesis by (simp add: place_order_def)
  next
    case False
    with Cons.prems(2) obtain oid where oid: "order_response ex hist (mk q) = Inr oid"
      and acc': "all_accepted ex (hist @ [Place_order (mk q)])
                   (map (\<lambda>q. Place_order (mk q)) (butlast qs))"
      by (auto split: sum.splits)
    from Cons.prems(3) False
    have "order_response ex ((hist @ [Place_order (mk q)])
              @ map (\<lambda>q. Place_order (mk q)) (butlast qs)) (mk (last qs)) = Inl e"
      by simp
    from Cons.IH[OF False acc' this, of "acc @ [line q oid]"] oid
    show ?thesis by (simp add: place_order_def)
  qed
qed

lemma stuck_loop_never_returns:
  assumes "accepts_all ex" and "0 < r" and "float_sub r (min r mx) = r"
  shows "slicing_loop float_sub ex mk line mx r acc hist = None"
proof (cases "slicing_loop float_sub ex mk line mx r acc hist")
  case None
  then show ?thesis .
next
  case (Some y)
  let ?P = "\<lambda>(float_sub :: rat \<Rightarrow> rat \<Rightarrow> rat) (ex :: exchange) (mk :: rat \<Rightarrow> order_request)
       (line :: rat \<Rightarrow> string \<Rightarrow> string) (mx :: rat) (r :: rat) (acc :: string list)
       (hist :: call list) (y :: (exn + string list) \<times> call list).
       \<not> (accepts_all ex \<and> 0 < r \<and> float_sub r (min r mx) = r)"
  have "?P float_sub ex mk line mx r acc hist y"
  proof (rule slicing_loop.raw_induct[where P = ?P, OF _ Some])
    fix loop :: "(rat \<Rightarrow> rat \<Rightarrow> rat) \<Rightarrow> exchange \<Rightarrow> (rat \<Rightarrow> order_request)
        \<Rightarrow> (rat \<Rightarrow> string \<Rightarrow> string) \<Rightarrow> rat \<Rightarrow> rat \<Rightarrow> string list \<Rightarrow> call list
        \<Rightarrow> ((exn + string list) \<times> call list) option"
      and float_sub :: "rat \<Rightarrow> rat \<Rightarrow> rat" and ex mk line and mx r :: rat and acc hist
      and y :: "(exn + string list) \<times> call list"
    assume ih: "\<And>float_sub ex mk line mx r acc hist y.
        loop float_sub ex mk line mx r acc hist = Some y \<Longrightarrow>
        \<not> (accepts_all ex \<and> 0 < r \<and> float_sub r (min r mx) = r)"
      and body: "(if 0 < r
          then let current_slice_qty = min r mx
               in case place_order ex hist (mk current_slice_qty) of
                  (Inl e, hist') \<Rightarrow> Some (Inl e, hist')
                | (Inr order_id, hist') \<Rightarrow>
                    loop float_sub ex mk line mx (float_sub r current_slice_qty)
                      (acc @ [line current_slice_qty order_id]) hist'
          else Some (Inr acc, hist)) = Some y"
    show "\<not> (accepts_all ex \<and> 0 < r \<and> float_sub r (min r mx) = r)"
    proof
      assume a: "accepts_all ex \<and> 0 < r \<and> float_sub r (min r mx) = r"
      then obtain oid where oid: "order_response ex hist (mk (min r mx)) = Inr oid"
        unfolding accepts_all_def by blast
      from body a oid
      have "loop float_sub ex mk line mx r (acc @ [line (min r mx) oid])
              (hist @ [Place_order (mk (min r mx))]) = Some y"
        by (simp add: Let_def place_order_def)
      from ih[OF this] a show False by blast
    qed
  qed
  with assms show ?thesis by simp
qed

lemma first_slice_submitted:
  assumes "0 < r"
    and "slicing_loop float_sub ex mk line mx r acc hist = Some (res, hist2)"
  shows "\<exists>calls. hist2 = hist @ Place_order (mk (min r mx)) # calls"
proof (cases "order_response ex hist (mk (min r mx))")
  case (Inl e)
  with assms have "hist2 = hist @ [Place_order (mk (min r mx))]"
    by (subst (asm) slicing_loop.simps) (simp add: Let_def place_order_def)
  then show ?thesis by simp
next
  case (Inr oid)
  let ?h = "hist @ [Place_order (mk (min r mx))]"
  let ?a = "acc @ [line (min r mx) oid]"
  from assms Inr
  have "slicing_loop float_sub ex mk line mx (float_sub r (min r mx)) ?a ?h = Some (res, hist2)"
    by (subst (asm) slicing_loop.simps) (simp add: Let_def place_order_def)
  from slicing_loop_returns_planned[OF this] obtain n where
    run: "(res, hist2) = run_slices ex mk line
            (planned_slices float_sub n mx (float_sub r (min r mx))) ?a ?h"
    by blast
  from run_slices_calls[of "planned_slices float_sub n mx (float_sub r (min r mx))"
      ex mk line ?a ?h] run
  obtain k where "hist2 = ?h @ map (\<lambda>q. Place_order (mk q))
      (take k (planned_slices float_sub n mx (float_sub r (min r mx))))"
    by (metis snd_conv)
  then show ?thesis by simp
qed

lemma slicing_loop_calls:
  assumes "0 < mx" and "exact_run float_sub (nat \<lceil>total_qty / mx\<rceil>) mx total_qty"
  shows "\<exists>res k. slicing_loop float_sub ex mk line mx total_qty acc hist
            = Some (res, hist @ map (\<lambda>q. Place_order (mk q)) (take k (spec_slices total_qty mx)))
         \<and> (all_accepted ex hist (map (\<lambda>q. Place_order (mk q)) (take k (spec_slices total_qty mx)))
              \<longrightarrow> take k (spec_slices total_qty mx) = spec_slices total_qty mx)"
proof -
  let ?qs = "spec_slices total_qty mx"
  from run_slices_calls[of ?qs ex mk line acc hist]
  obtain k where k: "snd (run_slices ex mk line ?qs acc hist)
        = hist @ map (\<lambda>q. Place_order (mk q)) (take k ?qs)"
    by blast
  have "slicing_loop float_sub ex mk line mx total_qty acc hist
      = Some (fst (run_slices ex mk line ?qs acc hist),
              hist @ map (\<lambda>q. Place_order (mk q)) (take k ?qs))"
    unfolding k[symmetric] by (simp add: slicing_loop_exact[OF assms])
  moreover have "take k ?qs = ?qs"
    if "all_accepted ex hist (map (\<lambda>q. Place_order (mk q)) (take k ?qs))"
    using run_slices_all_accepted[OF k that] take_all_of_map_eq by blast
  ultimately show ?thesis by blast
qed

lemma run_slices_accepts_all:
  assumes "accepts_all ex"
  shows "snd (run_slices ex mk line qs acc hist) = hist @ map (\<lambda>q. Place_order (mk q)) qs"
proof -
  from run_slices_calls[of qs ex mk line acc hist] obtain k where
    k: "snd (run_slices ex mk line qs acc hist) = hist @ map (\<lambda>q. Place_order (mk q)) (take k qs)"
    by blast
  from run_slices_all_accepted[OF k accepts_all_all_accepted[OF assms]]
  show ?thesis using k by simp
qed

section \<open>The executor\<close>

lemma executor_valid:
  assumes "instruments_response ex hist ''linear'' symb = Inr (inst # rest)"
    and "maxOrderQty inst = Inr mx" and "minOrderQty inst = Inr mn"
    and "mn \<le> total_qty"
  shows "advanced_sliced_executor float_sub ex str_float hist symb sd total_qty tp sl =
     (case slicing_loop float_sub ex (slice_request symb sd tp sl) (slice_line str_float)
             mx total_qty [] (hist @ [Get_instruments_info ''linear'' symb]) of
        None \<Rightarrow> None
      | Some (Inl e, hist2) \<Rightarrow> Some (''CRITICAL FAILURE: '' @ e, hist2)
      | Some (Inr orders_executed, hist2) \<Rightarrow>
          Some (success_report str_float total_qty symb orders_executed, hist2))"
  using assms
  by (simp add: advanced_sliced_executor_def get_instruments_info_def)

lemma executor_returns_calls:
  assumes "instruments_response ex hist ''linear'' symb = Inr (inst # rest)"
    and "maxOrderQty inst = Inr mx" and "minOrderQty inst = Inr mn"
    and "mn \<le> total_qty"
    and "advanced_sliced_executor float_sub ex str_float hist symb sd total_qty tp sl
           = Some (s, hist2)"
  shows "\<exists>n k. hist2 = hist @ Get_instruments_info ''linear'' symb
                  # map (\<lambda>q. Place_order (slice_request symb sd tp sl q))
                      (take k (planned_slices float_sub n mx total_qty))"
proof -
  let ?h = "hist @ [Get_instruments_info ''linear'' symb]"
  let ?mk = "slice_request symb sd tp sl"
  from assms(5) obtain res where
    loop: "slicing_loop float_sub ex ?mk (slice_line str_float) mx total_qty [] ?h
             = Some (res, hist2)"
    unfolding executor_valid[OF assms(1-4)] by (auto split: option.splits sum.splits)
  from slicing_loop_returns_planned[OF loop] obtain n where
    run: "(res, hist2) = run_slices ex ?mk (slice_line str_float)
            (planned_slices float_sub n mx total_qty) [] ?h"
    by blast
  from run_slices_calls[of "planned_slices float_sub n mx total_qty" ex ?mk
      "slice_line str_float" "[]" ?h] run
  obtain k where "hist2 = ?h @ map (\<lambda>q. Place_order (?mk q))
      (take k (planned_slices float_sub n mx total_qty))"
    by (metis snd_conv)
  then show ?thesis by auto
qed

lemma executor_exact:
  assumes "instruments_response ex hist ''linear'' symb = Inr (inst # rest)"
    and "maxOrderQty inst = Inr mx" and "minOrderQty inst = Inr mn"
    and "mn \<le> total_qty" and "0 < mx"
    and "exact_run float_sub (nat \<lceil>total_qty / mx\<rceil>) mx total_qty"
  shows "\<exists>s k. advanced_sliced_executor float_sub ex str_float hist symb sd total_qty tp sl
            = Some (s, hist @ Get_instruments_info ''linear'' symb
                  # map (\<lambda>q. Place_order (slice_request symb sd tp sl q))
                      (take k (spec_slices total_qty mx)))
         \<and> (all_accepted ex hist (Get_instruments_info ''linear'' symb
                  # map (\<lambda>q. Place_order (slice_request symb sd tp sl q))
                      (take k (spec_slices total_qty mx)))
              \<longrightarrow> take k (spec_slices total_qty mx) = spec_slices total_qty mx)"
proof -
  let ?h = "hist @ [Get_instruments_info ''linear'' symb]"
  let ?mk = "slice_request symb sd tp sl"
  let ?qs = "spec_slices total_qty mx"
  let ?run = "run_slices ex ?mk (slice_line str_float) ?qs [] ?h"
  from run_slices_calls[of ?qs ex ?mk "slice_line str_float" "[]" ?h]
  obtain k where k: "snd ?run = ?h @ map (\<lambda>q. Place_order (?mk q)) (take k ?qs)"
    by blast
  have loop: "slicing_loop float_sub ex ?mk (slice_line str_float) mx total_qty [] ?h
      = Some (fst ?run, ?h @ map (\<lambda>q. Place_order (?mk q)) (take k ?qs))"
    unfolding k[symmetric] by (simp add: slicing_loop_exact[OF assms(5,6)])
  have "\<exists>s. advanced_sliced_executor float_sub ex str_float hist symb sd total_qty tp sl
      = Some (s, hist @ Get_instruments_info ''linear'' symb
            # map (\<lambda>q. Place_order (?mk q)) (take k ?qs))"
    unfolding executor_valid[OF assms(1-4)] loop by (simp split: sum.splits)
  moreover have "take k ?qs = ?qs"
    if "all_accepted ex hist (Get_instruments_info ''linear'' symb
          # map (\<lambda>q. Place_order (?mk q)) (take k ?qs))"
  proof -
    from that have "all_accepted ex ?h (map (\<lambda>q. Place_order (?mk q)) (take k ?qs))"
      by simp
    from run_slices_all_accepted[OF k this] take_all_of_map_eq show ?thesis by blast
  qed
  ultimately show ?thesis by blast
qed

lemma executor_total_exact:
  assumes "\<forall>inst rest mx. instruments_response ex hist ''linear'' symb = Inr (inst # rest)
             \<and> maxOrderQty inst = Inr mx \<longrightarrow>
             0 < mx \<and> exact_run float_sub (nat \<lceil>total_qty / mx\<rceil>) mx total_qty"
  shows "\<exists>s hist2. advanced_sliced_executor float_sub ex str_float hist symb sd total_qty tp sl
            = Some (s, hist2)"
proof (cases "instruments_response ex hist ''linear'' symb")
  case (Inl e)
  then show ?thesis by (simp add: advanced_sliced_executor_def get_instruments_info_def)
next
  case (Inr instruments)
  show ?thesis
  proof (cases instruments)
    case Nil
    with Inr show ?thesis by (simp add: advanced_sliced_executor_def get_instruments_info_def)
  next
    case (Cons inst rest)
    with Inr have lookup: "instruments_response ex hist ''linear'' symb = Inr (inst # rest)"
      by simp
    show ?thesis
    proof (cases "maxOrderQty inst")
      case (Inl e)
      with lookup show ?thesis
        by (simp add: advanced_sliced_executor_def get_instruments_info_def)
    next
      case mx: (Inr mx)
      show ?thesis
      proof (cases "minOrderQty inst")
        case (Inl e)
        with lookup mx show ?thesis
          by (simp add: advanced_sliced_executor_def get_instruments_info_def)
      next
        case mn: (Inr mn)
        show ?thesis
        proof (cases "total_qty < mn")
          case True
          with lookup mx mn show ?thesis
            by (simp add: advanced_sliced_executor_def get_instruments_info_def)
        next
          case False
          then have le: "mn \<le> total_qty" by simp
          from assms lookup mx have "0 < mx"
            "exact_run float_sub (nat \<lceil>total_qty / mx\<rceil>) mx total_qty"
            by blast+
          from executor_exact[OF lookup mx mn le this] show ?thesis by blast
        qed
      qed
    qed
  qed
qed

lemma slice_request_fields:
  "slice_request symb sd tp sl q =
     \<lparr> category = ''linear'', symbol = symb, side = sd, orderType = ''Market'', qty = QNum q,
       takeProfit = Some tp, stopLoss = Some sl, tpTriggerBy = Some ''MarkPrice'',
       slTriggerBy = Some ''MarkPrice'', tpslMode = Some ''Full'', timeInForce = Some ''GTC'' \<rparr>"
  by (simp add: slice_request_def market_request_def)

section \<open>The batch loop\<close>

lemma join_concat:
  "join sep xs = (if xs = [] then [] else concat (map (\<lambda>l. l @ sep) (butlast xs)) @ last xs)"
  by (induction sep xs rule: join.induct) simp_all

lemma execute_orders_loop_lines:
  "execute_orders_loop ex orders results hist =
     (results @ map (\<lambda>i. case order_response ex
                     (hist @ map (\<lambda>ord. Place_order (batch_request ord)) (take i orders))
                     (batch_request (orders ! i)) of
                   Inr order_id \<Rightarrow>
                     ''Success: '' @ order_symbol (orders ! i) @ '' OrderID: '' @ order_id
                 | Inl e \<Rightarrow> ''Failed: '' @ order_symbol (orders ! i) @ '' Error: '' @ e)
                [0..<length orders],
      hist @ map (\<lambda>ord. Place_order (batch_request ord)) orders)"
proof (induction orders arbitrary: results hist)
  case Nil
  then show ?case by simp
next
  case (Cons ord orders)
  show ?case
    by (cases "order_response ex hist (batch_request ord)")
      (simp_all add: place_order_def Cons.IH map_upt_Suc del: upt_Suc cong: sum.case_cong)
qed

section \<open>Facts about the concrete exchanges\<close>

lemma demo_lookup:
  "instruments_response demo_exchange h ''linear'' ''BTCUSDT'' = Inr [demo_instrument]"
  "instruments_response flaky_exchange h ''linear'' ''BTCUSDT'' = Inr [demo_instrument]"
  "instruments_response demo_exchange h ''linear'' ''NONEXISTENT'' = Inr []"
  "instruments_response closed_exchange h ''linear'' ''BTCUSDT'' = Inr [closed_instrument]"
  "maxOrderQty demo_instrument = Inr 10" "minOrderQty demo_instrument = Inr 1"
  "status demo_instrument = ''Trading''"
  "instruments_response unit_max_exchange h ''linear'' ''BTCUSDT'' = Inr [unit_max_instrument]"
  "maxOrderQty unit_max_instrument = Inr 1" "minOrderQty unit_max_instrument = Inr 1"
  "maxOrderQty closed_instrument = Inr 10" "minOrderQty closed_instrument = Inr 1"
  "status closed_instrument = ''Closed''"
  by (simp_all add: demo_exchange_def flaky_exchange_def closed_exchange_def
      unit_max_exchange_def demo_instruments_def demo_instrument_def
      unit_max_instrument_def closed_instrument_def)

lemma demo_accepts: "accepts_all demo_exchange" "accepts_all unit_max_exchange"
  by (simp_all add: accepts_all_def demo_exchange_def unit_max_exchange_def demo_orders_def)

lemma double_sub_stuck: "double_sub (10 ^ 17) (min (10 ^ 17) 1) = 10 ^ 17"
  by code_simp

lemma exact_25_10: "exact_run double_sub (nat \<lceil>(25::rat) / 10\<rceil>) 10 25"
  "exact_run double_sub (nat \<lceil>(10::rat) / 10\<rceil>) 10 10"
  by code_simp+

lemma ceil_25_10: "nat \<lceil>(25::rat) / 10\<rceil> = 3"
  by code_simp

lemma spec_slices_examples:
  "spec_slices 25 10 = [10, 10, 5]" "spec_slices 10 10 = [10]"
  by code_simp+

lemma planned_25_10: "planned_slices double_sub 2 10 25 = [10, 10]"
  by code_simp

lemma tenth_lookup:
  "instruments_response tenth_max_exchange h ''linear'' ''BTCUSDT'' = Inr [tenth_max_instrument]"
  "maxOrderQty tenth_max_instrument = Inr double_tenth"
  "minOrderQty tenth_max_instrument = Inr double_tenth"
  "accepts_all tenth_max_exchange"
  by (simp_all add: tenth_max_exchange_def demo_instruments_def tenth_max_instrument_def
      accepts_all_def demo_orders_def)

text \<open>
  Rounding in the loop. With a maximum of \<open>0.1\<close> and a total of \<open>1.0\<close>, on an exchange
  that accepts every order, the loop of doubles makes eleven submissions, not
  \<open>ceil(1.0 / 0.1) = 10\<close>: ten of \<open>0.1\<close> and a last one of \<open>5 / 2 ^ 55\<close>. The
  quantities submitted sum to more than the total.
\<close>

lemma double_rounding_slices:
  "planned_slices double_sub 12 double_tenth 1
     = replicate 10 double_tenth @ [5 / 36028797018963968]"
  by code_simp

lemma double_rounding_overshoot:
  "\<exists>s. advanced_sliced_executor double_sub tenth_max_exchange demo_str_float [] ''BTCUSDT''
          ''Buy'' 1 ''70000'' ''65000''
        = Some (s, Get_instruments_info ''linear'' ''BTCUSDT''
            # map (\<lambda>q. Place_order (slice_request ''BTCUSDT'' ''Buy'' ''70000'' ''65000'' q))
                (replicate 10 double_tenth @ [5 / 36028797018963968]))"
  "sum_list (replicate 10 double_tenth @ [5 / 36028797018963968]) = 1 + 7 / 36028797018963968"
  "length (replicate 10 double_tenth @ [5 / 36028797018963968 :: rat]) = 11"
  "\<lceil>1 / double_tenth\<rceil> = 10"
proof -
  let ?h = "[] @ [Get_instruments_info ''linear'' ''BTCUSDT'']"
  let ?mk = "slice_request ''BTCUSDT'' ''Buy'' ''70000'' ''65000''"
  let ?qs = "replicate 10 double_tenth @ [5 / 36028797018963968]"
  have le: "double_tenth \<le> 1" by (simp add: double_tenth_def)
  have "length (planned_slices double_sub 12 double_tenth 1) < 12"
    unfolding double_rounding_slices by simp
  from slicing_loop_planned[OF disjI2, OF this, of tenth_max_exchange ?mk
      "slice_line demo_str_float" "[]" ?h]
  have loop: "slicing_loop double_sub tenth_max_exchange ?mk (slice_line demo_str_float)
      double_tenth 1 [] ?h
      = Some (run_slices tenth_max_exchange ?mk (slice_line demo_str_float) ?qs [] ?h)"
    unfolding double_rounding_slices .
  obtain res where run: "run_slices tenth_max_exchange ?mk (slice_line demo_str_float) ?qs [] ?h
      = (res, ?h @ map (\<lambda>q. Place_order (?mk q)) ?qs)"
    using run_slices_accepts_all[OF tenth_lookup(4), of ?mk "slice_line demo_str_float" ?qs "[]" ?h]
    by (metis prod.collapse)
  show "\<exists>s. advanced_sliced_executor double_sub tenth_max_exchange demo_str_float [] ''BTCUSDT''
          ''Buy'' 1 ''70000'' ''65000''
        = Some (s, Get_instruments_info ''linear'' ''BTCUSDT''
            # map (\<lambda>q. Place_order (?mk q)) ?qs)"
    unfolding executor_valid[OF tenth_lookup(1) tenth_lookup(2) tenth_lookup(3) le] loop run
    by (cases res) simp_all
  show "sum_list ?qs = 1 + 7 / 36028797018963968"
    by (simp add: double_tenth_def sum_list_replicate)
  show "length (replicate 10 double_tenth @ [5 / 36028797018963968 :: rat]) = 11" by simp
  show "\<lceil>1 / double_tenth\<rceil> = 10" unfolding double_tenth_def by code_simp
qed

section \<open>Failure of a slice\<close>

text \<open>
  Claim C1, as the code has it. The claim says that a slice whose submission raises is
  recorded and that the following slices are still attempted. The loop has no handler of its
  own: the only \<^verbatim>\<open>try\<close> encloses the whole function, so the first submission
  that raises ends the run.

  For an input that passes the validations: when the first \<open>n - 1\<close> slices of the loop are
  accepted and the submission of the \<open>n\<close>-th raises, the executor returns the single
  message \<open>CRITICAL FAILURE:\<close> followed by the error, and the calls it has made are the
  lookup and these \<open>n\<close> submissions: no later slice is attempted. This holds for every
  subtraction \<open>float_sub\<close>.
\<close>

theorem slice_failure_aborts:
  assumes "instruments_response ex hist ''linear'' symb = Inr (inst # rest)"
    and "maxOrderQty inst = Inr mx" and "minOrderQty inst = Inr mn"
    and "mn \<le> total_qty"
    and "planned_slices float_sub n mx total_qty = qs" and "length qs = n" and "0 < n"
    and "all_accepted ex (hist @ [Get_instruments_info ''linear'' symb])
           (map (\<lambda>q. Place_order (slice_request symb sd tp sl q)) (butlast qs))"
    and "order_response ex
           (hist @ Get_instruments_info ''linear'' symb
              # map (\<lambda>q. Place_order (slice_request symb sd tp sl q)) (butlast qs))
           (slice_request symb sd tp sl (last qs)) = Inl e"
  shows "advanced_sliced_executor float_sub ex str_float hist symb sd total_qty tp sl
           = Some (''CRITICAL FAILURE: '' @ e,
                   hist @ Get_instruments_info ''linear'' symb
                     # map (\<lambda>q. Place_order (slice_request symb sd tp sl q)) qs)"
proof -
  let ?h = "hist @ [Get_instruments_info ''linear'' symb]"
  let ?mk = "slice_request symb sd tp sl"
  from assms(6,7) have ne: "qs \<noteq> []" by auto
  from assms(9) have resp: "order_response ex (?h @ map (\<lambda>q. Place_order (?mk q)) (butlast qs))
      (?mk (last qs)) = Inl e"
    by simp
  from run_slices_raise[OF ne assms(8) resp, of "slice_line str_float" "[]"]
  have run: "run_slices ex ?mk (slice_line str_float) qs [] ?h
      = (Inl e, ?h @ map (\<lambda>q. Place_order (?mk q)) qs)" .
  then have "\<exists>e. fst (run_slices ex ?mk (slice_line str_float)
      (planned_slices float_sub n mx total_qty) [] ?h) = Inl e"
    unfolding assms(5) by simp
  then have "slicing_loop float_sub ex ?mk (slice_line str_float) mx total_qty [] ?h
      = Some (Inl e, ?h @ map (\<lambda>q. Place_order (?mk q)) qs)"
    using slicing_loop_planned[of ex ?mk "slice_line str_float" float_sub n mx total_qty "[]" ?h]
    unfolding assms(5) run by blast
  then show ?thesis unfolding executor_valid[OF assms(1-4)] by simp
qed

text \<open>
  On \<open>flaky_exchange\<close>, 25 with a maximum of 10: the second submission raises, two
  submissions are made, and the result is the failure message.
\<close>

theorem slice_failure_aborts_witness:
  "planned_slices double_sub 2 10 25 = [10, 10]
   \<and> advanced_sliced_executor double_sub flaky_exchange demo_str_float [] ''BTCUSDT'' ''Buy'' 25
        ''70000'' ''65000''
      = Some (''CRITICAL FAILURE: rejected'',
          [Get_instruments_info ''linear'' ''BTCUSDT'',
           Place_order
             \<lparr> category = ''linear'', symbol = ''BTCUSDT'', side = ''Buy'',
               orderType = ''Market'', qty = QNum 10, takeProfit = Some ''70000'',
               stopLoss = Some ''65000'', tpTriggerBy = Some ''MarkPrice'',
               slTriggerBy = Some ''MarkPrice'', tpslMode = Some ''Full'',
               timeInForce = Some ''GTC'' \<rparr>,
           Place_order
             \<lparr> category = ''linear'', symbol = ''BTCUSDT'', side = ''Buy'',
               orderType = ''Market'', qty = QNum 10, takeProfit = Some ''70000'',
               stopLoss = Some ''65000'', tpTriggerBy = Some ''MarkPrice'',
               slTriggerBy = Some ''MarkPrice'', tpslMode = Some ''Full'',
               timeInForce = Some ''GTC'' \<rparr>])"
proof -
  let ?P = "\<lambda>q. Place_order (slice_request ''BTCUSDT'' ''Buy'' ''70000'' ''65000'' q)"
  let ?g = "Get_instruments_info ''linear'' ''BTCUSDT''"
  have le: "(1::rat) \<le> 25" by simp
  have len: "length [10, 10 :: rat] = 2" and n: "(0::nat) < 2" by simp_all
  have acc: "all_accepted flaky_exchange ([] @ [?g]) (map ?P (butlast [10, 10]))"
    by (simp add: flaky_exchange_def flaky_orders_def)
  have resp: "order_response flaky_exchange ([] @ ?g # map ?P (butlast [10, 10]))
      (slice_request ''BTCUSDT'' ''Buy'' ''70000'' ''65000'' (last [10, 10])) = Inl ''rejected''"
    by (simp add: flaky_exchange_def flaky_orders_def)
  from slice_failure_aborts[OF demo_lookup(2) demo_lookup(5) demo_lookup(6) le planned_25_10
      len n acc resp, of demo_str_float]
  show ?thesis by (simp add: planned_25_10 slice_request_fields)
qed

text \<open>
  The run that claim C1 describes: three slices, the second submission raises. The report
  does not hold three outcomes; the third slice is never submitted and the first slice's
  order id is not in the result.
\<close>

theorem partial_failure_counterexample:
  "advanced_sliced_executor double_sub flaky_exchange demo_str_float [] ''BTCUSDT'' ''Buy'' 25
     ''70000'' ''65000''
   = Some (''CRITICAL FAILURE: rejected'',
       [Get_instruments_info ''linear'' ''BTCUSDT'',
        Place_order (slice_request ''BTCUSDT'' ''Buy'' ''70000'' ''65000'' 10),
        Place_order (slice_request ''BTCUSDT'' ''Buy'' ''70000'' ''65000'' 10)])"
  by code_simp

text \<open>
  Claim C10, as the code has it. Every exception raised inside the executor becomes the
  returned string \<open>CRITICAL FAILURE:\<close> followed by its message, and nothing else: this
  is so when the lookup raises, when the conversion of the maximum or of the minimum raises,
  and when the submission of the \<open>n\<close>-th slice raises after \<open>n - 1\<close> slices have been
  placed; the order ids of the slices already placed are not part of the string. When the
  maximum is positive and the subtractions of the run are exact, the executor returns a
  string for every input. It does not return for every input: see the counterexample.
\<close>

theorem exceptions_become_strings:
  "(\<forall>e. instruments_response ex hist ''linear'' symb = Inl e \<longrightarrow>
      advanced_sliced_executor float_sub ex str_float hist symb sd total_qty tp sl
        = Some (''CRITICAL FAILURE: '' @ e, hist @ [Get_instruments_info ''linear'' symb]))
   \<and> (\<forall>inst rest e. instruments_response ex hist ''linear'' symb = Inr (inst # rest)
        \<and> maxOrderQty inst = Inl e \<longrightarrow>
      advanced_sliced_executor float_sub ex str_float hist symb sd total_qty tp sl
        = Some (''CRITICAL FAILURE: '' @ e, hist @ [Get_instruments_info ''linear'' symb]))
   \<and> (\<forall>inst rest mx e. instruments_response ex hist ''linear'' symb = Inr (inst # rest)
        \<and> maxOrderQty inst = Inr mx \<and> minOrderQty inst = Inl e \<longrightarrow>
      advanced_sliced_executor float_sub ex str_float hist symb sd total_qty tp sl
        = Some (''CRITICAL FAILURE: '' @ e, hist @ [Get_instruments_info ''linear'' symb]))
   \<and> (\<forall>inst rest mx mn n e. instruments_response ex hist ''linear'' symb = Inr (inst # rest)
        \<and> maxOrderQty inst = Inr mx \<and> minOrderQty inst = Inr mn \<and> mn \<le> total_qty
        \<and> length (planned_slices float_sub n mx total_qty) = n \<and> 0 < n
        \<and> all_accepted ex (hist @ [Get_instruments_info ''linear'' symb])
             (map (\<lambda>q. Place_order (slice_request symb sd tp sl q))
                (butlast (planned_slices float_sub n mx total_qty)))
        \<and> order_response ex
             (hist @ Get_instruments_info ''linear'' symb
                # map (\<lambda>q. Place_order (slice_request symb sd tp sl q))
                    (butlast (planned_slices float_sub n mx total_qty)))
             (slice_request symb sd tp sl (last (planned_slices float_sub n mx total_qty)))
           = Inl e \<longrightarrow>
      advanced_sliced_executor float_sub ex str_float hist symb sd total_qty tp sl
        = Some (''CRITICAL FAILURE: '' @ e,
            hist @ Get_instruments_info ''linear'' symb
              # map (\<lambda>q. Place_order (slice_request symb sd tp sl q))
                  (planned_slices float_sub n mx total_qty)))
   \<and> ((\<forall>inst rest mx. instruments_response ex hist ''linear'' symb = Inr (inst # rest)
          \<and> maxOrderQty inst = Inr mx \<longrightarrow>
          0 < mx \<and> exact_run float_sub (nat \<lceil>total_qty / mx\<rceil>) mx total_qty) \<longrightarrow>
       (\<exists>s hist2. advanced_sliced_executor float_sub ex str_float hist symb sd total_qty tp sl
          = Some (s, hist2)))"
proof (intro conjI allI impI)
  fix e
  assume "instruments_response ex hist ''linear'' symb = Inl e"
  then show "advanced_sliced_executor float_sub ex str_float hist symb sd total_qty tp sl
        = Some (''CRITICAL FAILURE: '' @ e, hist @ [Get_instruments_info ''linear'' symb])"
    by (simp add: advanced_sliced_executor_def get_instruments_info_def)
next
  fix inst rest e
  assume "instruments_response ex hist ''linear'' symb = Inr (inst # rest)
        \<and> maxOrderQty inst = Inl e"
  then show "advanced_sliced_executor float_sub ex str_float hist symb sd total_qty tp sl
        = Some (''CRITICAL FAILURE: '' @ e, hist @ [Get_instruments_info ''linear'' symb])"
    by (simp add: advanced_sliced_executor_def get_instruments_info_def)
next
  fix inst rest mx e
  assume "instruments_response ex hist ''linear'' symb = Inr (inst # rest)
        \<and> maxOrderQty inst = Inr mx \<and> minOrderQty inst = Inl e"
  then show "advanced_sliced_executor float_sub ex str_float hist symb sd total_qty tp sl
        = Some (''CRITICAL FAILURE: '' @ e, hist @ [Get_instruments_info ''linear'' symb])"
    by (simp add: advanced_sliced_executor_def get_instruments_info_def)
next
  fix inst rest mx mn n e
  let ?h = "hist @ [Get_instruments_info ''linear'' symb]"
  let ?mk = "slice_request symb sd tp sl"
  let ?qs = "planned_slices float_sub n mx total_qty"
  assume a: "instruments_response ex hist ''linear'' symb = Inr (inst # rest)
        \<and> maxOrderQty inst = Inr mx \<and> minOrderQty inst = Inr mn \<and> mn \<le> total_qty
        \<and> length ?qs = n \<and> 0 < n
        \<and> all_accepted ex ?h (map (\<lambda>q. Place_order (?mk q)) (butlast ?qs))
        \<and> order_response ex
             (hist @ Get_instruments_info ''linear'' symb
                # map (\<lambda>q. Place_order (?mk q)) (butlast ?qs))
             (?mk (last ?qs)) = Inl e"
  then have ne: "?qs \<noteq> []" by auto
  from a have resp: "order_response ex (?h @ map (\<lambda>q. Place_order (?mk q)) (butlast ?qs))
      (?mk (last ?qs)) = Inl e"
    by simp
  from a have acc: "all_accepted ex ?h (map (\<lambda>q. Place_order (?mk q)) (butlast ?qs))"
    by blast
  from run_slices_raise[OF ne acc resp, of "slice_line str_float" "[]"]
  have run: "run_slices ex ?mk (slice_line str_float) ?qs [] ?h
      = (Inl e, ?h @ map (\<lambda>q. Place_order (?mk q)) ?qs)" .
  then have "slicing_loop float_sub ex ?mk (slice_line str_float) mx total_qty [] ?h
      = Some (Inl e, ?h @ map (\<lambda>q. Place_order (?mk q)) ?qs)"
    using slicing_loop_planned[of ex ?mk "slice_line str_float" float_sub n mx total_qty "[]" ?h]
    by simp
  moreover from a have
    "instruments_response ex hist ''linear'' symb = Inr (inst # rest)"
    "maxOrderQty inst = Inr mx" "minOrderQty inst = Inr mn" "mn \<le> total_qty"
    by blast+
  ultimately show
    "advanced_sliced_executor float_sub ex str_float hist symb sd total_qty tp sl
       = Some (''CRITICAL FAILURE: '' @ e,
           hist @ Get_instruments_info ''linear'' symb # map (\<lambda>q. Place_order (?mk q)) ?qs)"
    by (simp add: executor_valid)
next
  assume "\<forall>inst rest mx. instruments_response ex hist ''linear'' symb = Inr (inst # rest)
          \<and> maxOrderQty inst = Inr mx \<longrightarrow>
          0 < mx \<and> exact_run float_sub (nat \<lceil>total_qty / mx\<rceil>) mx total_qty"
  then show "\<exists>s hist2.
      advanced_sliced_executor float_sub ex str_float hist symb sd total_qty tp sl
        = Some (s, hist2)"
    by (rule executor_total_exact)
qed

text \<open>
  On \<open>flaky_exchange\<close> the second submission raises \<open>rejected\<close>, and the result is that
  message alone; on \<open>demo_exchange\<close> the executor returns.
\<close>

theorem exceptions_become_strings_witness:
  "advanced_sliced_executor double_sub flaky_exchange demo_str_float [] ''BTCUSDT''
       ''Buy'' 25 ''70000'' ''65000''
     = Some (''CRITICAL FAILURE: rejected'',
         [Get_instruments_info ''linear'' ''BTCUSDT'',
          Place_order
            \<lparr> category = ''linear'', symbol = ''BTCUSDT'', side = ''Buy'',
              orderType = ''Market'', qty = QNum 10, takeProfit = Some ''70000'',
              stopLoss = Some ''65000'', tpTriggerBy = Some ''MarkPrice'',
              slTriggerBy = Some ''MarkPrice'', tpslMode = Some ''Full'',
              timeInForce = Some ''GTC'' \<rparr>,
          Place_order
            \<lparr> category = ''linear'', symbol = ''BTCUSDT'', side = ''Buy'',
              orderType = ''Market'', qty = QNum 10, takeProfit = Some ''70000'',
              stopLoss = Some ''65000'', tpTriggerBy = Some ''MarkPrice'',
              slTriggerBy = Some ''MarkPrice'', tpslMode = Some ''Full'',
              timeInForce = Some ''GTC'' \<rparr>])
   \<and> (\<exists>s hist2. advanced_sliced_executor double_sub demo_exchange demo_str_float []
          ''BTCUSDT'' ''Buy'' 25 ''70000'' ''65000'' = Some (s, hist2))"
proof -
  let ?P = "\<lambda>q. Place_order (slice_request ''BTCUSDT'' ''Buy'' ''70000'' ''65000'' q)"
  let ?g = "Get_instruments_info ''linear'' ''BTCUSDT''"
  let ?qs = "planned_slices double_sub 2 10 25"
  have "instruments_response flaky_exchange [] ''linear'' ''BTCUSDT'' = Inr (demo_instrument # [])
        \<and> maxOrderQty demo_instrument = Inr 10 \<and> minOrderQty demo_instrument = Inr 1
        \<and> (1::rat) \<le> 25
        \<and> length ?qs = 2 \<and> (0::nat) < 2
        \<and> all_accepted flaky_exchange ([] @ [?g]) (map ?P (butlast ?qs))
        \<and> order_response flaky_exchange ([] @ ?g # map ?P (butlast ?qs))
             (slice_request ''BTCUSDT'' ''Buy'' ''70000'' ''65000'' (last ?qs))
           = Inl ''rejected''"
    unfolding planned_25_10
    using demo_lookup(2) demo_lookup(5) demo_lookup(6)
    by (simp add: flaky_exchange_def flaky_orders_def)
  with exceptions_become_strings[of flaky_exchange "[]" "''BTCUSDT''" double_sub demo_str_float
      "''Buy''" 25 "''70000''" "''65000''"]
  have "advanced_sliced_executor double_sub flaky_exchange demo_str_float []
      ''BTCUSDT'' ''Buy'' 25 ''70000'' ''65000''
      = Some (''CRITICAL FAILURE: '' @ ''rejected'', [] @ ?g # map ?P ?qs)"
    by blast
  then have 1: "advanced_sliced_executor double_sub flaky_exchange demo_str_float []
      ''BTCUSDT'' ''Buy'' 25 ''70000'' ''65000''
      = Some (''CRITICAL FAILURE: rejected'', [?g, ?P 10, ?P 10])"
    unfolding planned_25_10 by simp
  have "\<forall>inst rest mx. instruments_response demo_exchange [] ''linear'' ''BTCUSDT''
          = Inr (inst # rest) \<and> maxOrderQty inst = Inr mx \<longrightarrow>
          0 < mx \<and> exact_run double_sub (nat \<lceil>25 / mx\<rceil>) mx 25"
    using exact_25_10(1) by (auto simp: demo_lookup)
  with exceptions_become_strings[of demo_exchange "[]" "''BTCUSDT''" double_sub demo_str_float
      "''Buy''" 25 "''70000''" "''65000''"]
  have 2: "\<exists>s hist2. advanced_sliced_executor double_sub demo_exchange demo_str_float []
          ''BTCUSDT'' ''Buy'' 25 ''70000'' ''65000'' = Some (s, hist2)"
    by blast
  from 1 2 show ?thesis by (simp add: slice_request_fields)
qed

text \<open>
  Claim C10 says that the executor returns a string for every input. On
  \<open>unit_max_exchange\<close>, whose instrument has a maximum and a minimum of 1 and which accepts
  every order, a total of \<open>1e17\<close> is never used up: the double nearest to \<open>1e17 - 1\<close> is
  \<open>1e17\<close>, the remaining quantity stays where it is, and the executor does not return.
\<close>

theorem rounding_never_returns_counterexample:
  "advanced_sliced_executor double_sub unit_max_exchange demo_str_float [] ''BTCUSDT'' ''Buy''
     (10 ^ 17) ''70000'' ''65000'' = None"
proof -
  have le: "(1::rat) \<le> 10 ^ 17" by simp
  have pos: "(0::rat) < 10 ^ 17" by simp
  have loop: "slicing_loop double_sub unit_max_exchange
      (slice_request ''BTCUSDT'' ''Buy'' ''70000'' ''65000'') (slice_line demo_str_float)
      1 (10 ^ 17) [] ([] @ [Get_instruments_info ''linear'' ''BTCUSDT'']) = None"
    by (rule stuck_loop_never_returns[where float_sub = double_sub and r = "10 ^ 17"
          and mx = 1, OF demo_accepts(2) pos double_sub_stuck])
  show ?thesis
    unfolding executor_valid[OF demo_lookup(8) demo_lookup(9) demo_lookup(10) le] loop
    by (simp only: option.case)
qed

section \<open>The decomposition\<close>

text \<open>
  Claim C2, as the code has it. For a total quantity that is at least the minimum order
  quantity and not negative, and a positive maximum, provided that the subtractions of the
  run are exact: the executor returns, and the quantities it has submitted sum to at most
  the total, so nothing in excess is submitted. When every submission of the run was
  accepted they sum to the total exactly.
\<close>

theorem conservation_when_all_accepted:
  assumes "instruments_response ex hist ''linear'' symb = Inr (inst # rest)"
    and "maxOrderQty inst = Inr mx" and "minOrderQty inst = Inr mn"
    and "mn \<le> total_qty" and "0 \<le> total_qty" and "0 < mx"
    and "exact_run float_sub (nat \<lceil>total_qty / mx\<rceil>) mx total_qty"
  shows "\<exists>s calls. advanced_sliced_executor float_sub ex str_float hist symb sd total_qty tp sl
            = Some (s, hist @ calls)
         \<and> sum_list (submitted_qtys calls) \<le> total_qty
         \<and> (all_accepted ex hist calls \<longrightarrow> sum_list (submitted_qtys calls) = total_qty)"
proof -
  let ?qs = "spec_slices total_qty mx"
  let ?calls = "\<lambda>k. Get_instruments_info ''linear'' symb
      # map (\<lambda>q. Place_order (slice_request symb sd tp sl q)) (take k ?qs)"
  from executor_exact[OF assms(1,2,3,4,6,7), of str_float sd tp sl]
  obtain s k where
    eq: "advanced_sliced_executor float_sub ex str_float hist symb sd total_qty tp sl
           = Some (s, hist @ ?calls k)"
    and acc: "all_accepted ex hist (?calls k) \<Longrightarrow> take k ?qs = ?qs"
    by blast
  have sub: "submitted_qtys (?calls k) = take k ?qs"
    by (rule submitted_qtys_lookup_slices)
  have pos: "\<forall>q \<in> set ?qs. 0 < q"
    using spec_slices_bounds[OF assms(6)] by blast
  have "sum_list (submitted_qtys (?calls k)) \<le> total_qty"
    unfolding sub using sum_take_le[OF pos, of k] sum_spec_slices[OF assms(6,5)] by simp
  moreover have "sum_list (submitted_qtys (?calls k)) = total_qty"
    if "all_accepted ex hist (?calls k)"
  proof -
    from sub acc[OF that] have "submitted_qtys (?calls k) = ?qs" by (simp only:)
    then show ?thesis by (simp only: sum_spec_slices[OF assms(6,5)])
  qed
  ultimately show ?thesis using eq by blast
qed

theorem conservation_when_all_accepted_witness:
  "instruments_response demo_exchange [] ''linear'' ''BTCUSDT'' = Inr [demo_instrument]
   \<and> maxOrderQty demo_instrument = Inr 10 \<and> minOrderQty demo_instrument = Inr 1
   \<and> (1::rat) \<le> 25 \<and> (0::rat) \<le> 25 \<and> (0::rat) < 10
   \<and> exact_run double_sub (nat \<lceil>(25::rat) / 10\<rceil>) 10 25
   \<and> (\<exists>s calls. advanced_sliced_executor double_sub demo_exchange demo_str_float []
                   ''BTCUSDT'' ''Buy'' 25 ''70000'' ''65000'' = Some (s, calls)
         \<and> all_accepted demo_exchange [] calls
         \<and> sum_list (submitted_qtys calls) = 25)"
proof -
  have h: "(1::rat) \<le> 25" "(0::rat) \<le> 25" "(0::rat) < 10" by simp_all
  from conservation_when_all_accepted[OF demo_lookup(1) demo_lookup(5) demo_lookup(6) h
      exact_25_10(1),
      where str_float = demo_str_float and sd = "''Buy''" and tp = "''70000''"
        and sl = "''65000''" and hist = "[]"]
  obtain s calls where
    "advanced_sliced_executor double_sub demo_exchange demo_str_float []
        ''BTCUSDT'' ''Buy'' 25 ''70000'' ''65000'' = Some (s, [] @ calls)"
    "all_accepted demo_exchange [] calls \<longrightarrow> sum_list (submitted_qtys calls) = 25"
    by blast
  with accepts_all_all_accepted[OF demo_accepts(1), of "[]" calls]
  have "\<exists>s calls. advanced_sliced_executor double_sub demo_exchange demo_str_float []
                   ''BTCUSDT'' ''Buy'' 25 ''70000'' ''65000'' = Some (s, calls)
         \<and> all_accepted demo_exchange [] calls
         \<and> sum_list (submitted_qtys calls) = 25"
    by auto
  with demo_lookup(1) demo_lookup(5) demo_lookup(6) h exact_25_10(1) show ?thesis by blast
qed

text \<open>
  Claim C2 says that the slices always sum to the total. On \<open>flaky_exchange\<close> the second
  submission raises and the loop ends: the quantities submitted for a total of 25 sum to 20.
\<close>

theorem conservation_counterexample:
  "sum_list (submitted_qtys (snd (the
     (advanced_sliced_executor double_sub flaky_exchange demo_str_float [] ''BTCUSDT'' ''Buy'' 25
        ''70000'' ''65000'')))) = 20"
  by code_simp

text \<open>
  Claim C3, as the code has it. Under the same conditions the quantities submitted are an
  initial part of the closed form \<open>spec_slices\<close> (the maximum repeated, then the
  remainder). When every submission of the run was accepted they are the whole of it, and
  their number is \<open>ceil(total_quantity / maximum_order_quantity)\<close>.
\<close>

theorem slice_sequence_when_all_accepted:
  assumes "instruments_response ex hist ''linear'' symb = Inr (inst # rest)"
    and "maxOrderQty inst = Inr mx" and "minOrderQty inst = Inr mn"
    and "mn \<le> total_qty" and "0 \<le> total_qty" and "0 < mx"
    and "exact_run float_sub (nat \<lceil>total_qty / mx\<rceil>) mx total_qty"
  shows "\<exists>s qs. advanced_sliced_executor float_sub ex str_float hist symb sd total_qty tp sl
            = Some (s, hist @ Get_instruments_info ''linear'' symb
                         # map (\<lambda>q. Place_order (slice_request symb sd tp sl q)) qs)
         \<and> (\<exists>k. qs = take k (spec_slices total_qty mx))
         \<and> (all_accepted ex hist (Get_instruments_info ''linear'' symb
                         # map (\<lambda>q. Place_order (slice_request symb sd tp sl q)) qs) \<longrightarrow>
              qs = spec_slices total_qty mx \<and> int (length qs) = \<lceil>total_qty / mx\<rceil>)"
proof -
  let ?qs = "spec_slices total_qty mx"
  let ?calls = "\<lambda>qs. Get_instruments_info ''linear'' symb
      # map (\<lambda>q. Place_order (slice_request symb sd tp sl q)) qs"
  from executor_exact[OF assms(1,2,3,4,6,7), of str_float sd tp sl]
  obtain s k where
    eq: "advanced_sliced_executor float_sub ex str_float hist symb sd total_qty tp sl
           = Some (s, hist @ ?calls (take k ?qs))"
    and acc: "all_accepted ex hist (?calls (take k ?qs)) \<Longrightarrow> take k ?qs = ?qs"
    by blast
  have "0 \<le> total_qty / mx" using assms(5,6) by simp
  then have "0 \<le> \<lceil>total_qty / mx\<rceil>" by (simp add: zero_le_ceiling)
  then have len: "int (length ?qs) = \<lceil>total_qty / mx\<rceil>"
    by (simp add: length_spec_slices)
  have "take k ?qs = ?qs \<and> int (length (take k ?qs)) = \<lceil>total_qty / mx\<rceil>"
    if "all_accepted ex hist (?calls (take k ?qs))"
    using acc[OF that] len by simp
  with eq show ?thesis by blast
qed

text \<open>On \<open>demo_exchange\<close>, with the subtraction of doubles: 25 with a maximum of 10 is
  submitted as 10, 10, 5, and 10 as one slice of 10.\<close>

theorem slice_sequence_when_all_accepted_witness:
  "exact_run double_sub (nat \<lceil>(25::rat) / 10\<rceil>) 10 25
   \<and> exact_run double_sub (nat \<lceil>(10::rat) / 10\<rceil>) 10 10
   \<and> (\<exists>s. advanced_sliced_executor double_sub demo_exchange demo_str_float [] ''BTCUSDT''
             ''Buy'' 25 ''70000'' ''65000''
           = Some (s, Get_instruments_info ''linear'' ''BTCUSDT''
               # map (\<lambda>q. Place_order
                     \<lparr> category = ''linear'', symbol = ''BTCUSDT'', side = ''Buy'',
                       orderType = ''Market'', qty = QNum q, takeProfit = Some ''70000'',
                       stopLoss = Some ''65000'', tpTriggerBy = Some ''MarkPrice'',
                       slTriggerBy = Some ''MarkPrice'', tpslMode = Some ''Full'',
                       timeInForce = Some ''GTC'' \<rparr>)
                   [10, 10, 5]))
   \<and> (\<exists>s. advanced_sliced_executor double_sub demo_exchange demo_str_float [] ''BTCUSDT''
             ''Buy'' 10 ''70000'' ''65000''
           = Some (s, Get_instruments_info ''linear'' ''BTCUSDT''
               # map (\<lambda>q. Place_order
                     \<lparr> category = ''linear'', symbol = ''BTCUSDT'', side = ''Buy'',
                       orderType = ''Market'', qty = QNum q, takeProfit = Some ''70000'',
                       stopLoss = Some ''65000'', tpTriggerBy = Some ''MarkPrice'',
                       slTriggerBy = Some ''MarkPrice'', tpslMode = Some ''Full'',
                       timeInForce = Some ''GTC'' \<rparr>)
                   [10]))"
proof -
  have h: "(1::rat) \<le> 25" "(0::rat) \<le> 25" "(0::rat) < 10" by simp_all
  have h': "(1::rat) \<le> 10" "(0::rat) \<le> 10" by simp_all
  note acc = accepts_all_all_accepted[OF demo_accepts(1)]
  from slice_sequence_when_all_accepted[OF demo_lookup(1) demo_lookup(5) demo_lookup(6) h
      exact_25_10(1),
      where str_float = demo_str_float and sd = "''Buy''" and tp = "''70000''"
        and sl = "''65000''" and hist = "[]"] acc
  have 1: "\<exists>s. advanced_sliced_executor double_sub demo_exchange demo_str_float [] ''BTCUSDT''
             ''Buy'' 25 ''70000'' ''65000''
           = Some (s, Get_instruments_info ''linear'' ''BTCUSDT''
               # map (\<lambda>q. Place_order (slice_request ''BTCUSDT'' ''Buy'' ''70000'' ''65000'' q))
                   [10, 10, 5])"
    by (auto simp: spec_slices_examples)
  from slice_sequence_when_all_accepted[OF demo_lookup(1) demo_lookup(5) demo_lookup(6) h' h(3)
      exact_25_10(2),
      where str_float = demo_str_float and sd = "''Buy''" and tp = "''70000''"
        and sl = "''65000''" and hist = "[]"] acc
  have 2: "\<exists>s. advanced_sliced_executor double_sub demo_exchange demo_str_float [] ''BTCUSDT''
             ''Buy'' 10 ''70000'' ''65000''
           = Some (s, Get_instruments_info ''linear'' ''BTCUSDT''
               # map (\<lambda>q. Place_order (slice_request ''BTCUSDT'' ''Buy'' ''70000'' ''65000'' q))
                   [10])"
    by (auto simp: spec_slices_examples)
  from 1 2 exact_25_10 show ?thesis unfolding slice_request_fields by blast
qed

text \<open>
  Claim C3 says that the executor always produces all the slices. On \<open>flaky_exchange\<close>
  a total of 25 with a maximum of 10 gives the submissions 10, 10 and no third one.
\<close>

theorem slice_sequence_counterexample:
  "submitted_qtys (snd (the
     (advanced_sliced_executor double_sub flaky_exchange demo_str_float [] ''BTCUSDT'' ''Buy'' 25
        ''70000'' ''65000''))) = [10, 10]"
  by code_simp

text \<open>
  Claim C4. For a positive total quantity and a positive maximum order quantity, every
  slice quantity is positive and at most the maximum, whatever the subtraction and whether
  or not a submission raises: this holds for the slices that the arithmetic of the loop
  produces, however many of them are taken, and for every log that the executor returns,
  where every call after the lookup is the submission of such a slice. When the
  subtractions of the run are exact the executor does return such a log.
\<close>

theorem slices_within_bounds:
  assumes "instruments_response ex hist ''linear'' symb = Inr (inst # rest)"
    and "maxOrderQty inst = Inr mx"
    and "0 < total_qty" and "0 < mx"
  shows "(\<forall>s hist2. advanced_sliced_executor float_sub ex str_float hist symb sd total_qty tp sl
             = Some (s, hist2) \<longrightarrow>
           (\<exists>qs. hist2 = hist @ Get_instruments_info ''linear'' symb
                     # map (\<lambda>q. Place_order (slice_request symb sd tp sl q)) qs
              \<and> (\<forall>q \<in> set qs. 0 < q \<and> q \<le> mx)))
         \<and> (\<forall>n. \<forall>q \<in> set (planned_slices float_sub n mx total_qty). 0 < q \<and> q \<le> mx)
         \<and> (exact_run float_sub (nat \<lceil>total_qty / mx\<rceil>) mx total_qty \<longrightarrow>
             (\<exists>s qs. advanced_sliced_executor float_sub ex str_float hist symb sd total_qty tp sl
                 = Some (s, hist @ Get_instruments_info ''linear'' symb
                        # map (\<lambda>q. Place_order (slice_request symb sd tp sl q)) qs)
               \<and> (\<forall>q \<in> set qs. 0 < q \<and> q \<le> mx)))"
proof -
  let ?g = "Get_instruments_info ''linear'' symb"
  let ?P = "\<lambda>q. Place_order (slice_request symb sd tp sl q)"
  let ?run = "advanced_sliced_executor float_sub ex str_float hist symb sd total_qty tp sl"
  have returned: "\<exists>qs. hist2 = hist @ ?g # map ?P qs \<and> (\<forall>q \<in> set qs. 0 < q \<and> q \<le> mx)"
    if r: "?run = Some (s, hist2)" for s hist2
  proof (cases "minOrderQty inst")
    case (Inl e)
    with assms(1,2) r have "hist2 = hist @ ?g # map ?P []"
      by (simp add: advanced_sliced_executor_def get_instruments_info_def)
    then show ?thesis by (intro exI[of _ "[]"]) simp
  next
    case (Inr mn)
    show ?thesis
    proof (cases "total_qty < mn")
      case True
      with assms(1,2) Inr r have "hist2 = hist @ ?g # map ?P []"
        by (simp add: advanced_sliced_executor_def get_instruments_info_def)
      then show ?thesis by (intro exI[of _ "[]"]) simp
    next
      case False
      then have le: "mn \<le> total_qty" by simp
      from executor_returns_calls[OF assms(1,2) Inr le r]
      obtain n k where "hist2 = hist @ ?g # map ?P (take k (planned_slices float_sub n mx total_qty))"
        by blast
      moreover have "\<forall>q \<in> set (take k (planned_slices float_sub n mx total_qty)).
          0 < q \<and> q \<le> mx"
        using planned_slices_bounds[OF assms(4)] by (blast dest: in_set_takeD)
      ultimately show ?thesis by blast
    qed
  qed
  have planned: "\<forall>n. \<forall>q \<in> set (planned_slices float_sub n mx total_qty). 0 < q \<and> q \<le> mx"
    using planned_slices_bounds[OF assms(4)] by blast
  have exact: "\<exists>s qs. ?run = Some (s, hist @ ?g # map ?P qs) \<and> (\<forall>q \<in> set qs. 0 < q \<and> q \<le> mx)"
    if e: "exact_run float_sub (nat \<lceil>total_qty / mx\<rceil>) mx total_qty"
  proof -
    have "\<exists>s hist2. ?run = Some (s, hist2)"
    proof (cases "minOrderQty inst")
      case (Inl e)
      with assms(1,2) show ?thesis
        by (simp add: advanced_sliced_executor_def get_instruments_info_def)
    next
      case (Inr mn)
      show ?thesis
      proof (cases "total_qty < mn")
        case True
        with assms(1,2) Inr show ?thesis
          by (simp add: advanced_sliced_executor_def get_instruments_info_def)
      next
        case False
        then have le: "mn \<le> total_qty" by simp
        from executor_exact[OF assms(1,2) Inr le assms(4) e, of str_float sd tp sl]
        show ?thesis by blast
      qed
    qed
    then obtain s hist2 where r: "?run = Some (s, hist2)" by blast
    from returned[OF r] r show ?thesis by blast
  qed
  from returned planned exact show ?thesis by blast
qed

theorem slices_within_bounds_witness:
  "instruments_response demo_exchange [] ''linear'' ''BTCUSDT'' = Inr [demo_instrument]
   \<and> maxOrderQty demo_instrument = Inr 10 \<and> (0::rat) < 25 \<and> (0::rat) < 10
   \<and> exact_run double_sub (nat \<lceil>(25::rat) / 10\<rceil>) 10 25
   \<and> (\<exists>s q1 q2 q3. advanced_sliced_executor double_sub demo_exchange demo_str_float []
                ''BTCUSDT'' ''Buy'' 25 ''70000'' ''65000''
             = Some (s, [Get_instruments_info ''linear'' ''BTCUSDT'',
                   Place_order (slice_request ''BTCUSDT'' ''Buy'' ''70000'' ''65000'' q1),
                   Place_order (slice_request ''BTCUSDT'' ''Buy'' ''70000'' ''65000'' q2),
                   Place_order (slice_request ''BTCUSDT'' ''Buy'' ''70000'' ''65000'' q3)])
           \<and> 0 < q1 \<and> q1 \<le> 10 \<and> 0 < q2 \<and> q2 \<le> 10 \<and> 0 < q3 \<and> q3 \<le> 10)"
proof -
  let ?P = "\<lambda>q. Place_order (slice_request ''BTCUSDT'' ''Buy'' ''70000'' ''65000'' q)"
  have p1: "(0::rat) < 25" and p2: "(0::rat) < 10" by simp_all
  from slices_within_bounds[OF demo_lookup(1) demo_lookup(5) p1 p2,
      where float_sub = double_sub and str_float = demo_str_float and sd = "''Buy''"
        and tp = "''70000''" and sl = "''65000''" and hist = "[]"] exact_25_10(1)
  obtain s qs where
    eq: "advanced_sliced_executor double_sub demo_exchange demo_str_float [] ''BTCUSDT''
           ''Buy'' 25 ''70000'' ''65000''
         = Some (s, [] @ Get_instruments_info ''linear'' ''BTCUSDT'' # map ?P qs)"
    and b: "\<forall>q \<in> set qs. 0 < q \<and> q \<le> 10"
    by blast
  have "length (snd (the (advanced_sliced_executor double_sub demo_exchange demo_str_float []
           ''BTCUSDT'' ''Buy'' 25 ''70000'' ''65000''))) = 4"
    by code_simp
  with eq have "length qs = 3" by simp
  then obtain q1 q2 q3 where qs: "qs = [q1, q2, q3]"
    by (metis (no_types) length_0_conv length_Suc_conv numeral_3_eq_3)
  with eq b show ?thesis using demo_lookup(1) demo_lookup(5) exact_25_10(1) by auto
qed

text \<open>
  Claim C5, as the code has it. For every total quantity, every positive maximum and every
  exchange, provided that the subtractions of the run are exact, the loop returns. Each
  slice it submits is positive; it makes at most \<open>ceil(total_qty / mx)\<close> submissions
  (none when that number is not positive), and exactly that many when every submission was
  accepted.
\<close>

theorem slicing_loop_terminates:
  assumes "0 < mx" and "exact_run float_sub (nat \<lceil>total_qty / mx\<rceil>) mx total_qty"
  shows "\<exists>res qs. slicing_loop float_sub ex mk line mx total_qty acc hist
            = Some (res, hist @ map (\<lambda>q. Place_order (mk q)) qs)
         \<and> (\<forall>q \<in> set qs. 0 < q)
         \<and> length qs \<le> nat \<lceil>total_qty / mx\<rceil>
         \<and> (all_accepted ex hist (map (\<lambda>q. Place_order (mk q)) qs)
               \<longrightarrow> length qs = nat \<lceil>total_qty / mx\<rceil>)"
proof -
  let ?qs = "spec_slices total_qty mx"
  from slicing_loop_calls[OF assms, of ex mk line acc hist]
  obtain res k where
    eq: "slicing_loop float_sub ex mk line mx total_qty acc hist
           = Some (res, hist @ map (\<lambda>q. Place_order (mk q)) (take k ?qs))"
    and acc: "all_accepted ex hist (map (\<lambda>q. Place_order (mk q)) (take k ?qs))
           \<Longrightarrow> take k ?qs = ?qs"
    by blast
  have "\<forall>q \<in> set (take k ?qs). 0 < q"
    using spec_slices_bounds[OF assms(1)] by (blast dest: in_set_takeD)
  moreover have "length (take k ?qs) \<le> nat \<lceil>total_qty / mx\<rceil>"
    by (simp add: length_spec_slices)
  moreover have "length (take k ?qs) = nat \<lceil>total_qty / mx\<rceil>"
    if "all_accepted ex hist (map (\<lambda>q. Place_order (mk q)) (take k ?qs))"
    unfolding acc[OF that] by (rule length_spec_slices)
  ultimately show ?thesis using eq by blast
qed

theorem slicing_loop_terminates_witness:
  "(0::rat) < 10 \<and> exact_run double_sub (nat \<lceil>(25::rat) / 10\<rceil>) 10 25
   \<and> (\<exists>res qs. slicing_loop double_sub demo_exchange
          (slice_request ''BTCUSDT'' ''Buy'' ''70000'' ''65000'')
          (slice_line demo_str_float) 10 25 [] []
        = Some (res, map (\<lambda>q. Place_order (slice_request ''BTCUSDT'' ''Buy'' ''70000'' ''65000'' q)) qs)
      \<and> length qs = 3)"
proof -
  have p: "(0::rat) < 10" by simp
  from slicing_loop_terminates[OF p exact_25_10(1), of demo_exchange
      "slice_request ''BTCUSDT'' ''Buy'' ''70000'' ''65000''" "slice_line demo_str_float" "[]" "[]"]
  show ?thesis using accepts_all_all_accepted[OF demo_accepts(1)] exact_25_10(1)
    unfolding ceil_25_10 by auto
qed

text \<open>
  Claim C5 says that the loop of the code terminates for every total quantity and every
  positive maximum. The code subtracts doubles: with a maximum of 1 and a total of
  \<open>1e17\<close>, on an exchange that accepts every order, the remaining quantity never
  decreases and the loop does not return.
\<close>

theorem loop_never_ends_counterexample:
  "slicing_loop double_sub unit_max_exchange (slice_request ''BTCUSDT'' ''Buy'' ''70000'' ''65000'')
     (slice_line demo_str_float) 1 (10 ^ 17) [] [] = None"
proof -
  have pos: "(0::rat) < 10 ^ 17" by simp
  show ?thesis
    by (rule stuck_loop_never_returns[where float_sub = double_sub and r = "10 ^ 17"
          and mx = 1, OF demo_accepts(2) pos double_sub_stuck])
qed

section \<open>Validation failures\<close>

text \<open>
  Claim C6. When the requested total quantity is strictly below the instrument's minimum
  order quantity, \<open>advanced_sliced_executor\<close> returns the quantity-too-small message, and
  the only call it has made is the instrument lookup: no order was submitted.
\<close>

theorem quantity_below_minimum:
  assumes "instruments_response ex hist ''linear'' symb = Inr (inst # rest)"
    and "maxOrderQty inst = Inr mx" and "minOrderQty inst = Inr mn"
    and "total_qty < mn"
  shows "advanced_sliced_executor float_sub ex str_float hist symb sd total_qty tp sl =
     Some (''Failed: Quantity '' @ str_float total_qty
             @ '' is below the minimum required ('' @ str_float mn @ '').'',
           hist @ [Get_instruments_info ''linear'' symb])"
  using assms by (simp add: advanced_sliced_executor_def get_instruments_info_def)

theorem quantity_below_minimum_witness:
  "instruments_response demo_exchange [] ''linear'' ''BTCUSDT'' = Inr [demo_instrument]
   \<and> minOrderQty demo_instrument = Inr 1 \<and> (1 / 2 :: rat) < 1
   \<and> advanced_sliced_executor double_sub demo_exchange demo_str_float [] ''BTCUSDT'' ''Buy''
        (1 / 2) ''70000'' ''65000''
      = Some (''Failed: Quantity 0.5 is below the minimum required (1.0).'',
              [Get_instruments_info ''linear'' ''BTCUSDT''])"
proof -
  have lt: "(1 / 2 :: rat) < 1" by simp
  have "demo_str_float (1 / 2) = ''0.5''" "demo_str_float 1 = ''1.0''"
    by code_simp+
  with quantity_below_minimum[OF demo_lookup(1) demo_lookup(5) demo_lookup(6) lt,
      where float_sub = double_sub and str_float = demo_str_float and sd = "''Buy''"
      and tp = "''70000''" and sl = "''65000''" and hist = "[]"]
  show ?thesis by (simp add: demo_lookup)
qed

text \<open>
  Claim C7. When the instrument lookup answers with an empty list,
  \<open>advanced_sliced_executor\<close> returns the not-found message at once, and the only call
  it has made is the lookup: no order was submitted.
\<close>

theorem unknown_symbol:
  assumes "instruments_response ex hist ''linear'' symb = Inr []"
  shows "advanced_sliced_executor float_sub ex str_float hist symb sd total_qty tp sl =
     Some (''Error: '' @ symb @ '' not found.'', hist @ [Get_instruments_info ''linear'' symb])"
  using assms by (simp add: advanced_sliced_executor_def get_instruments_info_def)

theorem unknown_symbol_witness:
  "instruments_response demo_exchange [] ''linear'' ''NONEXISTENT'' = Inr []
   \<and> advanced_sliced_executor double_sub demo_exchange demo_str_float [] ''NONEXISTENT''
        ''Buy'' 25 ''70000'' ''65000''
      = Some (''Error: NONEXISTENT not found.'', [Get_instruments_info ''linear'' ''NONEXISTENT''])"
  using unknown_symbol[OF demo_lookup(3), where float_sub = double_sub
      and str_float = demo_str_float and sd = "''Buy''"
      and total_qty = 25 and tp = "''70000''" and sl = "''65000''" and hist = "[]"]
  by (simp add: demo_lookup)

section \<open>The status check\<close>

text \<open>
  Claim C8. For a symbol whose lookup succeeds with an instrument that is not
  \<open>Trading\<close>: \<open>place_market_order\<close> returns an error naming the status and has made no
  call but the lookup, while \<open>advanced_sliced_executor\<close>, for a valid positive quantity,
  goes on to submit its first slice; it never reads the status. Every log the executor
  returns starts with the lookup and the submission of the first slice, and it does return
  one when the subtractions of the run are exact.
\<close>

theorem status_check_asymmetry:
  assumes "instruments_response ex hist ''linear'' symb = Inr (inst # rest)"
    and "status inst \<noteq> ''Trading''"
  shows "place_market_order ex hist symb sd q tp sl cat
           = (''Error: '' @ symb @ '' exists but is currently '' @ status inst @ ''.'',
              hist @ [Get_instruments_info ''linear'' symb])
         \<and> (\<forall>mx mn total_qty.
               maxOrderQty inst = Inr mx \<and> minOrderQty inst = Inr mn
               \<and> mn \<le> total_qty \<and> 0 < total_qty \<and> 0 < mx \<longrightarrow>
               (\<forall>s hist2.
                  advanced_sliced_executor float_sub ex str_float hist symb sd total_qty tp sl
                    = Some (s, hist2) \<longrightarrow>
                  (\<exists>calls. hist2 = hist @ Get_instruments_info ''linear'' symb
                     # Place_order (slice_request symb sd tp sl (min total_qty mx)) # calls))
               \<and> (exact_run float_sub (nat \<lceil>total_qty / mx\<rceil>) mx total_qty \<longrightarrow>
                  (\<exists>s calls.
                     advanced_sliced_executor float_sub ex str_float hist symb sd total_qty tp sl
                       = Some (s, hist @ Get_instruments_info ''linear'' symb
                            # Place_order (slice_request symb sd tp sl (min total_qty mx))
                            # calls))))"
proof (intro conjI allI impI)
  show "place_market_order ex hist symb sd q tp sl cat
           = (''Error: '' @ symb @ '' exists but is currently '' @ status inst @ ''.'',
              hist @ [Get_instruments_info ''linear'' symb])"
    using assms by (simp add: place_market_order_def get_instruments_info_def)
next
  fix mx mn total_qty s hist2
  assume a: "maxOrderQty inst = Inr mx \<and> minOrderQty inst = Inr mn
               \<and> mn \<le> total_qty \<and> 0 < total_qty \<and> 0 < mx"
    and r: "advanced_sliced_executor float_sub ex str_float hist symb sd total_qty tp sl
              = Some (s, hist2)"
  from a have mx: "maxOrderQty inst = Inr mx" and mn: "minOrderQty inst = Inr mn"
    and le: "mn \<le> total_qty" and pos: "0 < total_qty"
    by blast+
  let ?h = "hist @ [Get_instruments_info ''linear'' symb]"
  from r obtain res where
    "slicing_loop float_sub ex (slice_request symb sd tp sl) (slice_line str_float)
       mx total_qty [] ?h = Some (res, hist2)"
    unfolding executor_valid[OF assms(1) mx mn le] by (auto split: option.splits sum.splits)
  from first_slice_submitted[OF pos this]
  show "\<exists>calls. hist2 = hist @ Get_instruments_info ''linear'' symb
      # Place_order (slice_request symb sd tp sl (min total_qty mx)) # calls"
    by simp
next
  fix mx mn total_qty
  assume a: "maxOrderQty inst = Inr mx \<and> minOrderQty inst = Inr mn
               \<and> mn \<le> total_qty \<and> 0 < total_qty \<and> 0 < mx"
    and e: "exact_run float_sub (nat \<lceil>total_qty / mx\<rceil>) mx total_qty"
  from a have mx: "maxOrderQty inst = Inr mx" and mn: "minOrderQty inst = Inr mn"
    and le: "mn \<le> total_qty" and pos: "0 < total_qty" and mpos: "0 < mx"
    by blast+
  let ?h = "hist @ [Get_instruments_info ''linear'' symb]"
  from executor_exact[OF assms(1) mx mn le mpos e, of str_float sd tp sl]
  obtain s hist2 where
    r: "advanced_sliced_executor float_sub ex str_float hist symb sd total_qty tp sl
          = Some (s, hist2)"
    by blast
  then obtain res where
    "slicing_loop float_sub ex (slice_request symb sd tp sl) (slice_line str_float)
       mx total_qty [] ?h = Some (res, hist2)"
    unfolding executor_valid[OF assms(1) mx mn le] by (auto split: option.splits sum.splits)
  from first_slice_submitted[OF pos this] r
  show "\<exists>s calls. advanced_sliced_executor float_sub ex str_float hist symb sd total_qty tp sl
      = Some (s, hist @ Get_instruments_info ''linear'' symb
            # Place_order (slice_request symb sd tp sl (min total_qty mx)) # calls)"
    by auto
qed

theorem status_check_asymmetry_witness:
  "instruments_response closed_exchange [] ''linear'' ''BTCUSDT'' = Inr [closed_instrument]
   \<and> status closed_instrument = ''Closed''
   \<and> exact_run double_sub (nat \<lceil>(10::rat) / 10\<rceil>) 10 10
   \<and> place_market_order closed_exchange [] ''BTCUSDT'' ''Buy'' ''10'' ''70000'' ''65000'' ''linear''
       = (''Error: BTCUSDT exists but is currently Closed.'',
          [Get_instruments_info ''linear'' ''BTCUSDT''])
   \<and> (\<exists>s calls. advanced_sliced_executor double_sub closed_exchange demo_str_float []
          ''BTCUSDT'' ''Buy'' 10 ''70000'' ''65000''
        = Some (s, Get_instruments_info ''linear'' ''BTCUSDT''
              # Place_order
                  \<lparr> category = ''linear'', symbol = ''BTCUSDT'', side = ''Buy'',
                    orderType = ''Market'', qty = QNum 10, takeProfit = Some ''70000'',
                    stopLoss = Some ''65000'', tpTriggerBy = Some ''MarkPrice'',
                    slTriggerBy = Some ''MarkPrice'', tpslMode = Some ''Full'',
                    timeInForce = Some ''GTC'' \<rparr>
              # calls))"
proof -
  have st: "status closed_instrument \<noteq> ''Trading''" by (simp add: demo_lookup)
  from status_check_asymmetry[OF demo_lookup(4) st, where hist = "[]" and sd = "''Buy''"
      and q = "''10''" and tp = "''70000''" and sl = "''65000''" and cat = "''linear''"
      and str_float = demo_str_float and float_sub = double_sub]
  have 1: "place_market_order closed_exchange [] ''BTCUSDT'' ''Buy'' ''10'' ''70000'' ''65000''
        ''linear''
       = (''Error: '' @ ''BTCUSDT'' @ '' exists but is currently '' @ status closed_instrument
            @ ''.'', [] @ [Get_instruments_info ''linear'' ''BTCUSDT''])"
    and 2: "\<And>mx mn total_qty. maxOrderQty closed_instrument = Inr mx \<and>
        minOrderQty closed_instrument = Inr mn \<and> mn \<le> total_qty \<and> 0 < total_qty \<and> 0 < mx \<Longrightarrow>
        exact_run double_sub (nat \<lceil>total_qty / mx\<rceil>) mx total_qty \<Longrightarrow>
        \<exists>s calls. advanced_sliced_executor double_sub closed_exchange demo_str_float []
            ''BTCUSDT'' ''Buy'' total_qty ''70000'' ''65000''
          = Some (s, [] @ Get_instruments_info ''linear'' ''BTCUSDT''
              # Place_order (slice_request ''BTCUSDT'' ''Buy'' ''70000'' ''65000''
                   (min total_qty mx)) # calls)"
    by blast+
  from 2[of 10 1 10, OF _ exact_25_10(2)]
  have "\<exists>s calls. advanced_sliced_executor double_sub closed_exchange demo_str_float []
       ''BTCUSDT'' ''Buy'' 10 ''70000'' ''65000''
        = Some (s, Get_instruments_info ''linear'' ''BTCUSDT''
              # Place_order (slice_request ''BTCUSDT'' ''Buy'' ''70000'' ''65000'' 10) # calls)"
    by (simp add: demo_lookup)
  with 1 exact_25_10(2) show ?thesis by (simp add: demo_lookup slice_request_fields)
qed

section \<open>The batch tool\<close>

text \<open>
  Claim C9. For every list of order objects, \<open>execute_multiple_orders\<close> makes exactly
  one \<open>place_order\<close> call per order, in order, and no instrument lookup; each call is a
  market order in the linear category with the symbol, side and quantity of its order
  object and no other argument. A submission that raises is turned into a \<open>Failed\<close>
  line and the loop goes on. The result is the list of one \<open>Success\<close> or \<open>Failed\<close>
  line per input order, joined by the newline character.
\<close>

theorem batch_reports_every_order:
  "\<exists>results.
     (let request = (\<lambda>ord.
            \<lparr> category = ''linear'', symbol = order_symbol ord, side = order_side ord,
              orderType = ''Market'', qty = QStr (order_quantity ord),
              takeProfit = None, stopLoss = None, tpTriggerBy = None, slTriggerBy = None,
              tpslMode = None, timeInForce = None \<rparr>)
      in execute_multiple_orders ex hist orders
           = (if results = [] then []
              else concat (map (\<lambda>l. l @ [CHR 0x0A]) (butlast results)) @ last results,
              hist @ map (\<lambda>ord. Place_order (request ord)) orders)
         \<and> length results = length orders
         \<and> results = map (\<lambda>i.
               case order_response ex
                      (hist @ map (\<lambda>ord. Place_order (request ord)) (take i orders))
                      (request (orders ! i)) of
                 Inr order_id \<Rightarrow>
                   ''Success: '' @ order_symbol (orders ! i) @ '' OrderID: '' @ order_id
               | Inl e \<Rightarrow> ''Failed: '' @ order_symbol (orders ! i) @ '' Error: '' @ e)
             [0..<length orders])"
proof -
  have req: "(\<lambda>ord. \<lparr> category = ''linear'', symbol = order_symbol ord, side = order_side ord,
              orderType = ''Market'', qty = QStr (order_quantity ord),
              takeProfit = None, stopLoss = None, tpTriggerBy = None, slTriggerBy = None,
              tpslMode = None, timeInForce = None \<rparr>) = batch_request"
    by (rule ext) (simp add: batch_request_def)
  show ?thesis
    unfolding Let_def req
    by (simp add: execute_multiple_orders_def execute_orders_loop_lines join_concat newline_def)
qed

text \<open>
  On \<open>flaky_exchange\<close> the second of three orders is rejected: three submissions are
  made and the report has three lines.
\<close>

theorem batch_reports_every_order_witness:
  "execute_multiple_orders flaky_exchange [] demo_orders_batch
     = (''Success: BTCUSDT OrderID: order-0'' @ [CHR 0x0A]
          @ ''Failed: ETHUSDT Error: rejected'' @ [CHR 0x0A]
          @ ''Success: NOSUCH OrderID: order-2'',
        [Place_order
           \<lparr> category = ''linear'', symbol = ''BTCUSDT'', side = ''Buy'', orderType = ''Market'',
             qty = QStr ''1'', takeProfit = None, stopLoss = None, tpTriggerBy = None,
             slTriggerBy = None, tpslMode = None, timeInForce = None \<rparr>,
         Place_order
           \<lparr> category = ''linear'', symbol = ''ETHUSDT'', side = ''Sell'', orderType = ''Market'',
             qty = QStr ''2'', takeProfit = None, stopLoss = None, tpTriggerBy = None,
             slTriggerBy = None, tpslMode = None, timeInForce = None \<rparr>,
         Place_order
           \<lparr> category = ''linear'', symbol = ''NOSUCH'', side = ''Buy'', orderType = ''Market'',
             qty = QStr ''3'', takeProfit = None, stopLoss = None, tpTriggerBy = None,
             slTriggerBy = None, tpslMode = None, timeInForce = None \<rparr>])"
proof -
  let ?request = "\<lambda>ord.
            \<lparr> category = ''linear'', symbol = order_symbol ord, side = order_side ord,
              orderType = ''Market'', qty = QStr (order_quantity ord),
              takeProfit = None, stopLoss = None, tpTriggerBy = None, slTriggerBy = None,
              tpslMode = None, timeInForce = None \<rparr>"
  from batch_reports_every_order[of flaky_exchange "[]" demo_orders_batch]
  obtain results where
    eq: "execute_multiple_orders flaky_exchange [] demo_orders_batch
           = (if results = [] then []
              else concat (map (\<lambda>l. l @ [CHR 0x0A]) (butlast results)) @ last results,
              [] @ map (\<lambda>ord. Place_order (?request ord)) demo_orders_batch)"
    and r: "results = map (\<lambda>i.
               case order_response flaky_exchange
                      ([] @ map (\<lambda>ord. Place_order (?request ord)) (take i demo_orders_batch))
                      (?request (demo_orders_batch ! i)) of
                 Inr order_id \<Rightarrow>
                   ''Success: '' @ order_symbol (demo_orders_batch ! i) @ '' OrderID: '' @ order_id
               | Inl e \<Rightarrow> ''Failed: '' @ order_symbol (demo_orders_batch ! i) @ '' Error: '' @ e)
             [0..<length demo_orders_batch]"
    unfolding Let_def by blast
  have "results = [''Success: BTCUSDT OrderID: order-0'', ''Failed: ETHUSDT Error: rejected'',
      ''Success: NOSUCH OrderID: order-2'']"
    unfolding r by code_simp
  with eq show ?thesis by (simp add: demo_orders_batch_def)
qed

end
